theory Spec2Isabelle
  imports Main "HOL-Library.Word" "HOL-Library.Signed_Division"
begin

unbundle bit_operations_syntax

section \<open>Constants\<close>

text \<open>
  The library keeps its numeric constants in \<^verbatim>\<open>nfx/detail/datatypes/Constants.h\<close>, which is
  not among the sources. The constants whose value is fixed by the sources that use them
  (a comment beside the use, the test-suite, the documented bit layout of the flags word)
  are defined here; those whose value nothing fixes are parameters of the functions that
  read them.
\<close>

text \<open>Modelled from the spec: \<^verbatim>\<open>constants::DECIMAL_BASE\<close> and \<^verbatim>\<open>constants::INT128_BASE\<close> of the
  missing Constants.h; both types are read and written in base ten.\<close>

definition DECIMAL_BASE :: nat where
  "DECIMAL_BASE = 10"

definition INT128_BASE :: nat where
  "INT128_BASE = 10"

text \<open>Modelled from the spec: \<^verbatim>\<open>constants::DECIMAL_SIGN_MASK\<close>, \<^verbatim>\<open>DECIMAL_SCALE_MASK\<close> and
  \<^verbatim>\<open>DECIMAL_SCALE_SHIFT\<close> of the missing Constants.h; the flags word holds the scale in
  bits 16 to 23 and the sign in bit 31 (section 3 of the specification, and the comment on
  \<^verbatim>\<open>Layout::flags\<close> in Decimal.h).\<close>

definition DECIMAL_SIGN_MASK :: "32 word" where
  "DECIMAL_SIGN_MASK = 0x80000000"

definition DECIMAL_SCALE_MASK :: "32 word" where
  "DECIMAL_SCALE_MASK = 0x00FF0000"

definition DECIMAL_SCALE_SHIFT :: nat where
  "DECIMAL_SCALE_SHIFT = 16"

text \<open>Modelled from the spec: \<^verbatim>\<open>constants::DECIMAL_MAXIMUM_PLACES\<close> of the missing Constants.h;
  the scale ranges over 0 to 28.\<close>

definition DECIMAL_MAXIMUM_PLACES :: nat where
  "DECIMAL_MAXIMUM_PLACES = 28"

text \<open>Modelled from the spec: \<^verbatim>\<open>constants::DECIMAL_ROUNDING_THRESHOLD\<close> of the missing
  Constants.h; the rounding digit is compared with 5.\<close>

definition DECIMAL_ROUNDING_THRESHOLD :: "64 word" where
  "DECIMAL_ROUNDING_THRESHOLD = 5"

text \<open>Modelled from the spec: the widths \<^verbatim>\<open>constants::BITS_PER_UINT32\<close>,
  \<^verbatim>\<open>BITS_PER_UINT64\<close> and the value \<^verbatim>\<open>UINT32_MAX_VALUE\<close> of the missing Constants.h, as
  their names say.\<close>

definition BITS_PER_UINT32 :: nat where
  "BITS_PER_UINT32 = 32"

definition BITS_PER_UINT64 :: nat where
  "BITS_PER_UINT64 = 64"

definition UINT32_MAX_VALUE :: "64 word" where
  "UINT32_MAX_VALUE = 0xFFFFFFFF"

section \<open>Errors\<close>

text \<open>The three exceptions the library throws: \<^verbatim>\<open>std::overflow_error\<close>,
  \<^verbatim>\<open>std::domain_error\<close> and \<^verbatim>\<open>std::invalid_argument\<close>.\<close>

datatype error = overflow_error | domain_error | invalid_argument

definition bindE :: "error + 'a \<Rightarrow> ('a \<Rightarrow> error + 'b) \<Rightarrow> error + 'b" where
  "bindE m f = (case m of Inl e \<Rightarrow> Inl e | Inr v \<Rightarrow> f v)"

section \<open>Int128 on a native 128-bit word\<close>

text \<open>
  With \<^verbatim>\<open>NFX_DATATYPES_HAS_NATIVE_INT128\<close> the class holds one \<^verbatim>\<open>__int128 m_value\<close>. It is
  modelled as a 128-bit word read in two's complement; addition, subtraction,
  multiplication and negation wrap around, division truncates towards zero.
\<close>

type_synonym Int128 = "128 word"

definition Int128_of_words :: "64 word \<Rightarrow> 64 word \<Rightarrow> Int128" where
  "Int128_of_words low high = push_bit BITS_PER_UINT64 (ucast high) OR ucast low"

definition toLow :: "Int128 \<Rightarrow> 64 word" where
  "toLow v = ucast v"

definition toHigh :: "Int128 \<Rightarrow> 64 word" where
  "toHigh v = ucast (signed_drop_bit BITS_PER_UINT64 v)"

definition Int128_less :: "Int128 \<Rightarrow> Int128 \<Rightarrow> bool" where
  "Int128_less a b = (sint a < sint b)"

definition Int128_greater :: "Int128 \<Rightarrow> Int128 \<Rightarrow> bool" where
  "Int128_greater a b = (sint a > sint b)"

definition Int128_neg :: "Int128 \<Rightarrow> Int128" where
  "Int128_neg a = - a"

definition Int128_abs :: "Int128 \<Rightarrow> Int128" where
  "Int128_abs a = (if sint a < 0 then - a else a)"

definition Int128_div :: "Int128 \<Rightarrow> Int128 \<Rightarrow> error + Int128" where
  "Int128_div a b =
     (if b = 0 then Inl overflow_error else Inr (word_of_int (sint a sdiv sint b)))"

definition Int128_mod :: "Int128 \<Rightarrow> Int128 \<Rightarrow> error + Int128" where
  "Int128_mod a b =
     (if b = 0 then Inl overflow_error else Inr (word_of_int (sint a smod sint b)))"

definition Int128_min :: Int128 where
  "Int128_min = Int128_of_words 0 0x8000000000000000"

section \<open>Decimal\<close>

record Decimal =
  flags :: "32 word"
  mantissa0 :: "32 word"
  mantissa1 :: "32 word"
  mantissa2 :: "32 word"

definition Decimal_zero :: Decimal where
  "Decimal_zero = \<lparr>flags = 0, mantissa0 = 0, mantissa1 = 0, mantissa2 = 0\<rparr>"

definition scale :: "Decimal \<Rightarrow> 8 word" where
  "scale d = ucast (drop_bit DECIMAL_SCALE_SHIFT (flags d AND DECIMAL_SCALE_MASK))"

definition isNegative :: "Decimal \<Rightarrow> bool" where
  "isNegative d = (flags d AND DECIMAL_SIGN_MASK \<noteq> 0)"

definition mantissaAsInt128 :: "Decimal \<Rightarrow> Int128" where
  "mantissaAsInt128 d =
     push_bit BITS_PER_UINT64 (ucast (mantissa2 d))
       OR push_bit BITS_PER_UINT32 (ucast (mantissa1 d))
       OR ucast (mantissa0 d)"

definition setMantissa :: "Decimal \<Rightarrow> Int128 \<Rightarrow> Decimal" where
  "setMantissa d v =
     d\<lparr>mantissa0 := ucast v,
       mantissa1 := ucast (signed_drop_bit BITS_PER_UINT32 v),
       mantissa2 := ucast (signed_drop_bit BITS_PER_UINT64 v)\<rparr>"

definition mantissa_is_zero :: "Decimal \<Rightarrow> bool" where
  "mantissa_is_zero d = (mantissa0 d = 0 \<and> mantissa1 d = 0 \<and> mantissa2 d = 0)"

text \<open>The unsigned value of the three mantissa limbs.\<close>

definition mantissa_nat :: "Decimal \<Rightarrow> nat" where
  "mantissa_nat d = unat (mantissa0 d) + 2 ^ 32 * unat (mantissa1 d) + 2 ^ 64 * unat (mantissa2 d)"


subsection \<open>Helpers of namespace internal\<close>

text \<open>Modelled from the spec: the tables \<^verbatim>\<open>constants::DECIMAL_POWERS_OF_10\<close> (64-bit, powers
  0 to 19) and \<^verbatim>\<open>constants::DECIMAL_EXTENDED_POWERS_OF_10\<close> (pairs of 64-bit halves, powers
  20 to 28) of the missing Constants.h, with their bounds; the entry for \<open>p\<close> is \<open>10 ^ p\<close>
  (the comments of \<^verbatim>\<open>powerOf10\<close>).\<close>

definition DECIMAL_POWER_TABLE_SIZE :: nat where
  "DECIMAL_POWER_TABLE_SIZE = 20"

definition DECIMAL_EXTENDED_POWER_MIN :: nat where
  "DECIMAL_EXTENDED_POWER_MIN = 20"

definition DECIMAL_EXTENDED_POWER_MAX :: nat where
  "DECIMAL_EXTENDED_POWER_MAX = 28"

definition DECIMAL_POWERS_OF_10 :: "nat \<Rightarrow> 64 word" where
  "DECIMAL_POWERS_OF_10 i = 10 ^ i"

definition DECIMAL_EXTENDED_POWERS_OF_10 :: "nat \<Rightarrow> 64 word \<times> 64 word" where
  "DECIMAL_EXTENDED_POWERS_OF_10 i =
     (ucast ((10 :: 128 word) ^ (DECIMAL_EXTENDED_POWER_MIN + i)),
      ucast (drop_bit 64 ((10 :: 128 word) ^ (DECIMAL_EXTENDED_POWER_MIN + i))))"

text \<open>The fall-back loop of \<^verbatim>\<open>powerOf10\<close>: \<open>n\<close> multiplications by ten.\<close>

fun powerOf10_loop :: "nat \<Rightarrow> Int128 \<Rightarrow> Int128" where
  "powerOf10_loop 0 result = result"
| "powerOf10_loop (Suc n) result = powerOf10_loop n (result * of_nat DECIMAL_BASE)"

definition powerOf10 :: "8 word \<Rightarrow> Int128" where
  "powerOf10 pw =
     (if unat pw < DECIMAL_POWER_TABLE_SIZE \<and> DECIMAL_POWERS_OF_10 (unat pw) \<noteq> 0
      then ucast (DECIMAL_POWERS_OF_10 (unat pw))
      else if DECIMAL_EXTENDED_POWER_MIN \<le> unat pw \<and> unat pw \<le> DECIMAL_EXTENDED_POWER_MAX
      then (case DECIMAL_EXTENDED_POWERS_OF_10 (unat pw - DECIMAL_EXTENDED_POWER_MIN) of
              (lo, hi) \<Rightarrow> Int128_of_words lo hi)
      else powerOf10_loop (unat pw) 1)"

definition alignScale :: "Decimal \<Rightarrow> Decimal \<Rightarrow> Int128 \<times> Int128" where
  "alignScale decimal other =
     (let left = mantissaAsInt128 decimal;
          right = mantissaAsInt128 other;
          leftScale = scale decimal;
          rightScale = scale other
      in if leftScale < rightScale then (left * powerOf10 (rightScale - leftScale), right)
         else if rightScale < leftScale then (left, right * powerOf10 (leftScale - rightScale))
         else (left, right))"

definition divideByPowerOf10 :: "Decimal \<Rightarrow> 8 word \<Rightarrow> error + Decimal" where
  "divideByPowerOf10 decimal pw =
     bindE (Int128_div (mantissaAsInt128 decimal) (powerOf10 pw))
       (\<lambda>m. Inr (setMantissa decimal m))"

text \<open>One turn of the loop of \<^verbatim>\<open>normalize\<close>: divide the mantissa by ten and store the
  scale less one in the scale field.\<close>

definition normalize_step :: "Decimal \<Rightarrow> error + Decimal" where
  "normalize_step decimal =
     bindE (divideByPowerOf10 decimal 1)
       (\<lambda>d. Inr (d\<lparr>flags := (flags d AND NOT DECIMAL_SCALE_MASK)
                            OR push_bit DECIMAL_SCALE_SHIFT (ucast (scale d) - 1)\<rparr>))"


text \<open>The scale field can be read back after it is written, and \<^verbatim>\<open>setMantissa\<close> leaves
  the flags alone; the loop of \<^verbatim>\<open>normalize\<close> terminates on these grounds.\<close>

lemma DECIMAL_SCALE_MASK_eq: "DECIMAL_SCALE_MASK = push_bit 16 (mask 8)"
  by (simp add: DECIMAL_SCALE_MASK_def mask_eq_exp_minus_1)

lemma scale_set_scale:
  "scale (d\<lparr>flags := (f AND NOT DECIMAL_SCALE_MASK)
                       OR push_bit DECIMAL_SCALE_SHIFT (ucast (s::8 word))\<rparr>) = s"
  unfolding scale_def DECIMAL_SCALE_MASK_eq DECIMAL_SCALE_SHIFT_def
  apply simp
  apply (rule bit_word_eqI)
  apply (auto simp add: bit_simps)
  done

lemma unat_ucast_8_32: "unat (ucast (w :: 8 word) :: 32 word) = unat w"
proof -
  have "unat w < 2 ^ 8" using unsigned_less[of w] by simp
  then have "unat w < 2 ^ 32" by simp
  then show ?thesis by (simp add: unsigned_ucast_eq take_bit_nat_eq_self)
qed

lemma ucast_pred_8_32:
  assumes "0 < s"
  shows "(ucast (s::8 word) - 1 :: 32 word) = ucast (s - 1)"
proof -
  have s: "s \<noteq> 0" using assms by auto
  have "ucast s \<noteq> (0 :: 32 word)"
    using s unat_ucast_8_32[of s] by (metis unat_0_iff)
  then have "unat (ucast s - 1 :: 32 word) = unat s - 1"
    by (simp add: unat_minus_one unat_ucast_8_32)
  moreover have "unat (ucast (s - 1) :: 32 word) = unat s - 1"
    using s by (simp add: unat_ucast_8_32 unat_minus_one)
  ultimately show ?thesis by (metis word_unat_eq_iff)
qed

lemma flags_setMantissa: "flags (setMantissa d v) = flags d"
  by (simp add: setMantissa_def)

lemma scale_setMantissa: "scale (setMantissa d v) = scale d"
  by (simp add: scale_def setMantissa_def)

lemma scale_normalize_step:
  assumes "normalize_step d = Inr d'" and "0 < scale d"
  shows "scale d' = scale d - 1"
proof -
  from assms(1) obtain m where d': "d' = (setMantissa d m)\<lparr>flags := (flags (setMantissa d m) AND NOT DECIMAL_SCALE_MASK)
         OR push_bit DECIMAL_SCALE_SHIFT (ucast (scale (setMantissa d m)) - 1)\<rparr>"
    by (auto simp add: normalize_step_def divideByPowerOf10_def bindE_def split: sum.splits)
  show ?thesis
    unfolding d' scale_setMantissa ucast_pred_8_32[OF assms(2)] by (rule scale_set_scale)
qed

text \<open>\<^verbatim>\<open>normalize\<close>: while the scale is positive and the mantissa is a multiple of ten,
  divide the mantissa by ten and take one from the scale.\<close>

function normalize :: "Decimal \<Rightarrow> error + Decimal" where
  "normalize decimal =
     (if 0 < scale decimal
      then (case Int128_mod (mantissaAsInt128 decimal) (of_nat DECIMAL_BASE) of
              Inl e \<Rightarrow> Inl e
            | Inr r \<Rightarrow>
                if r = 0
                then (case normalize_step decimal of
                        Inl e \<Rightarrow> Inl e
                      | Inr d \<Rightarrow> normalize d)
                else Inr decimal)
      else Inr decimal)"
  by pat_completeness auto
termination
proof (relation "measure (\<lambda>d. unat (scale d))")
  show "wf (measure (\<lambda>d. unat (scale d)))" by simp
next
  fix decimal :: Decimal and r :: Int128 and d :: Decimal
  assume pos: "0 < scale decimal" and step: "normalize_step decimal = Inr d"
  have "scale decimal \<noteq> 0" using pos by auto
  then have "unat (scale decimal - 1) < unat (scale decimal)" by (rule measure_unat)
  then show "(d, decimal) \<in> measure (\<lambda>d. unat (scale d))"
    by (simp add: scale_normalize_step[OF step pos])
qed

declare normalize.simps [simp del]


subsection \<open>Comparison\<close>

datatype strong_ordering = Less | Equal | Greater

text \<open>\<^verbatim>\<open>Decimal::operator<=>\<close>: the sign bits first, then the scale-aligned mantissas.\<close>

definition Decimal_cmp :: "Decimal \<Rightarrow> Decimal \<Rightarrow> strong_ordering" where
  "Decimal_cmp this other =
     (let thisNeg = (flags this AND DECIMAL_SIGN_MASK \<noteq> 0);
          otherNeg = (flags other AND DECIMAL_SIGN_MASK \<noteq> 0)
      in if thisNeg \<noteq> otherNeg then (if thisNeg then Less else Greater)
         else (case alignScale this other of
                 (leftMantissa, rightMantissa) \<Rightarrow>
                   if thisNeg
                   then (if Int128_greater leftMantissa rightMantissa then Less
                         else if Int128_less leftMantissa rightMantissa then Greater
                         else Equal)
                   else (if Int128_less leftMantissa rightMantissa then Less
                         else if Int128_greater leftMantissa rightMantissa then Greater
                         else Equal)))"

definition Decimal_less :: "Decimal \<Rightarrow> Decimal \<Rightarrow> bool" where
  "Decimal_less this other = (Decimal_cmp this other = Less)"

text \<open>\<^verbatim>\<open>Decimal::operator==\<close>.\<close>

definition Decimal_eq :: "Decimal \<Rightarrow> Decimal \<Rightarrow> bool" where
  "Decimal_eq this other =
     (let thisZero = (mantissa0 this = 0 \<and> mantissa1 this = 0 \<and> mantissa2 this = 0);
          otherZero = (mantissa0 other = 0 \<and> mantissa1 other = 0 \<and> mantissa2 other = 0)
      in if thisZero \<and> otherZero then True
         else let thisNeg = (flags this AND DECIMAL_SIGN_MASK \<noteq> 0);
                  otherNeg = (flags other AND DECIMAL_SIGN_MASK \<noteq> 0)
              in if thisNeg \<noteq> otherNeg then False
                 else (case alignScale this other of (left, right) \<Rightarrow> left = right))"

subsection \<open>Construction from an Int128\<close>

definition Decimal_of_Int128 :: "Int128 \<Rightarrow> error + Decimal" where
  "Decimal_of_Int128 val =
     (if val = 0 then Inr Decimal_zero
      else let isNeg = Int128_less val 0
           in if val = Int128_min then Inl overflow_error
              else let absoluteValue = Int128_abs val;
                       d = (if isNeg
                            then Decimal_zero\<lparr>flags := flags Decimal_zero OR DECIMAL_SIGN_MASK\<rparr>
                            else Decimal_zero);
                       high64 = toHigh absoluteValue
                   in if high64 > UINT32_MAX_VALUE then Inl overflow_error
                      else Inr (setMantissa d absoluteValue))"

subsection \<open>Negation, addition and subtraction\<close>

text \<open>\<^verbatim>\<open>Decimal::operator-()\<close>: the sign bit is flipped, whatever the mantissa.\<close>

definition Decimal_neg :: "Decimal \<Rightarrow> Decimal" where
  "Decimal_neg this = this\<lparr>flags := flags this XOR DECIMAL_SIGN_MASK\<rparr>"

definition setSign :: "Decimal \<Rightarrow> Decimal" where
  "setSign d = d\<lparr>flags := flags d OR DECIMAL_SIGN_MASK\<rparr>"

text \<open>\<^verbatim>\<open>Decimal::operator+\<close>. The result starts from the flags of \<open>this\<close> with the larger
  scale written in; its mantissa is the low 96 bits of the 128-bit sum or difference.\<close>

definition Decimal_add :: "Decimal \<Rightarrow> Decimal \<Rightarrow> error + Decimal" where
  "Decimal_add this other =
     (if Decimal_eq this Decimal_zero then Inr other
      else if Decimal_eq other Decimal_zero then Inr this
      else (case alignScale this other of
              (left, right) \<Rightarrow>
                let result0 = setMantissa Decimal_zero (left + right);
                    result1 = result0\<lparr>flags := (flags this AND NOT DECIMAL_SCALE_MASK)
                                OR push_bit DECIMAL_SCALE_SHIFT (ucast (max (scale this) (scale other)))\<rparr>;
                    result2 =
                      (if Decimal_less this Decimal_zero = Decimal_less other Decimal_zero
                       then (if Decimal_less this Decimal_zero then setSign result1 else result1)
                       else if Int128_greater left right
                       then (let r = setMantissa result1 (left - right)
                             in if Decimal_less this Decimal_zero then setSign r else r)
                       else (let r = setMantissa result1 (right - left)
                             in if Decimal_less other Decimal_zero then setSign r else r))
                in normalize result2))"



section \<open>The mantissa as a number\<close>

text \<open>The three limbs, the 128-bit word \<^verbatim>\<open>mantissaAsInt128\<close> builds from them and the
  limbs \<^verbatim>\<open>setMantissa\<close> stores are related through their unsigned values.\<close>

lemma or_push_bit_nat_less:
  assumes "b < 2 ^ n"
  shows "(a::nat) * 2 ^ n OR b = a * 2 ^ n + b"
proof -
  have b: "take_bit n b = b" using assms by (simp add: take_bit_nat_eq_self)
  have "\<not> bit (push_bit n a) k \<or> \<not> bit b k" for k
    using bit_take_bit_iff[of n b k] by (auto simp add: b bit_push_bit_iff)
  then have "push_bit n a OR b = push_bit n a + b"
    by (simp add: disjunctive_add)
  then show ?thesis by (simp only: push_bit_eq_mult)
qed

lemma unat_ucast_32_128: "unat (ucast (w :: 32 word) :: 128 word) = unat w"
proof -
  have "unat w < 2 ^ 32" using unsigned_less[of w] by simp
  then have "unat w < 2 ^ 128" by simp
  then show ?thesis by (simp add: unsigned_ucast_eq take_bit_nat_eq_self)
qed

lemma unat_push_ucast_32_128:
  assumes n: "n \<le> 96"
  shows "unat (push_bit n (ucast (w :: 32 word) :: 128 word)) = unat w * 2 ^ n"
proof -
  have "unat w < 2 ^ 32" using unsigned_less[of w] by simp
  then have "unat w * 2 ^ n < 2 ^ 32 * 2 ^ n" by simp
  also have "\<dots> = 2 ^ (32 + n)" by (simp add: power_add)
  also have "\<dots> \<le> (2::nat) ^ 128" using n by (intro power_increasing) simp_all
  finally have "unat w * 2 ^ n < 2 ^ 128" .
  then have "take_bit 128 (push_bit n (unat w)) = unat w * 2 ^ n"
    by (simp add: take_bit_nat_eq_self push_bit_eq_mult)
  then show ?thesis
    by (simp only: unsigned_push_bit_eq unat_ucast_32_128) simp
qed

lemma unat_mantissaAsInt128: "unat (mantissaAsInt128 d) = mantissa_nat d"
proof -
  have a: "unat (mantissa0 d) < 2 ^ 32" "unat (mantissa1 d) < 2 ^ 32"
    using unsigned_less[of "mantissa0 d"] unsigned_less[of "mantissa1 d"] by simp_all
  have "unat (mantissaAsInt128 d) =
     (unat (mantissa2 d) * 2 ^ 64 OR unat (mantissa1 d) * 2 ^ 32) OR unat (mantissa0 d)"
    unfolding mantissaAsInt128_def BITS_PER_UINT64_def BITS_PER_UINT32_def
    by (simp only: unsigned_or_eq unat_push_ucast_32_128 unat_ucast_32_128 or.assoc)
  also have "unat (mantissa2 d) * 2 ^ 64 = (unat (mantissa2 d) * 2 ^ 32) * 2 ^ 32"
    by simp
  also have "(unat (mantissa2 d) * 2 ^ 32) * 2 ^ 32 OR unat (mantissa1 d) * 2 ^ 32
      = (unat (mantissa2 d) * 2 ^ 32 OR unat (mantissa1 d)) * 2 ^ 32"
    by (simp only: push_bit_eq_mult[symmetric] push_bit_or)
  also have "unat (mantissa2 d) * 2 ^ 32 OR unat (mantissa1 d) = unat (mantissa2 d) * 2 ^ 32 + unat (mantissa1 d)"
    by (rule or_push_bit_nat_less[OF a(2)])
  also have "(unat (mantissa2 d) * 2 ^ 32 + unat (mantissa1 d)) * 2 ^ 32 OR unat (mantissa0 d)
       = (unat (mantissa2 d) * 2 ^ 32 + unat (mantissa1 d)) * 2 ^ 32 + unat (mantissa0 d)"
    by (rule or_push_bit_nat_less[OF a(1)])
  finally show ?thesis by (simp add: mantissa_nat_def algebra_simps)
qed

lemma ucast_signed_drop_bit:
  assumes "n + LENGTH('b::len) \<le> LENGTH('a::len)"
  shows "(ucast (signed_drop_bit n (w::'a word)) :: 'b word) = ucast (drop_bit n w)"
  using assms
  by (intro bit_word_eqI) (auto simp add: bit_simps)

lemma unat_ucast_drop_bit:
  "unat (ucast (drop_bit n (w::'a::len word)) :: 'b::len word) = (unat w div 2 ^ n) mod 2 ^ LENGTH('b)"
proof -
  have "unat (drop_bit n w) = unat w div 2 ^ n"
    unfolding unat_drop_bit_eq by (rule drop_bit_eq_div)
  then show ?thesis
    by (simp only: unsigned_ucast_eq take_bit_eq_mod)
qed

lemma unat_toLow: "unat (toLow v) = unat v mod 2 ^ 64"
  by (simp add: toLow_def unsigned_ucast_eq take_bit_eq_mod)

lemma unat_toHigh: "unat (toHigh v) = unat v div 2 ^ 64"
proof -
  have "unat v < 2 ^ 128" using unsigned_less[of v] by simp
  then have "unat v div 2 ^ 64 < 2 ^ 64" by (simp add: less_mult_imp_div_less)
  then show ?thesis
    unfolding toHigh_def BITS_PER_UINT64_def
    by (simp add: ucast_signed_drop_bit unat_ucast_drop_bit)
qed

lemma split_limbs: "(x::nat) mod 2 ^ 32 + 2 ^ 32 * ((x div 2 ^ 32) mod 2 ^ 32) + 2 ^ 64 * ((x div 2 ^ 64) mod 2 ^ 32) = x mod 2 ^ 96"
proof -
  have a: "x mod 2 ^ 96 = x mod 2 ^ 64 + 2 ^ 64 * ((x div 2 ^ 64) mod 2 ^ 32)"
    using mod_mult2_eq[of x "2 ^ 64" "2 ^ 32"] by simp
  have b: "x mod 2 ^ 64 = x mod 2 ^ 32 + 2 ^ 32 * ((x div 2 ^ 32) mod 2 ^ 32)"
    using mod_mult2_eq[of x "2 ^ 32" "2 ^ 32"] by simp
  show ?thesis using a b by simp
qed

lemma mantissa_nat_setMantissa: "mantissa_nat (setMantissa d v) = unat v mod 2 ^ 96"
proof -
  have 0: "unat (ucast v :: 32 word) = unat v mod 2 ^ 32"
    by (simp add: unsigned_ucast_eq take_bit_eq_mod)
  have 1: "unat (ucast (signed_drop_bit 32 v) :: 32 word) = (unat v div 2 ^ 32) mod 2 ^ 32"
    by (simp add: ucast_signed_drop_bit unat_ucast_drop_bit)
  have 2: "unat (ucast (signed_drop_bit 64 v) :: 32 word) = (unat v div 2 ^ 64) mod 2 ^ 32"
    by (simp add: ucast_signed_drop_bit unat_ucast_drop_bit)
  show ?thesis
    unfolding mantissa_nat_def setMantissa_def BITS_PER_UINT64_def BITS_PER_UINT32_def
    using split_limbs[of "unat v"] by (simp add: 0 1 2)
qed

lemma mantissa_nat_less: "mantissa_nat d < 2 ^ 96"
proof -
  have "unat (mantissa0 d) < 2 ^ 32" "unat (mantissa1 d) < 2 ^ 32" "unat (mantissa2 d) < 2 ^ 32"
    using unsigned_less[of "mantissa0 d"] unsigned_less[of "mantissa1 d"] unsigned_less[of "mantissa2 d"] by simp_all
  then show ?thesis unfolding mantissa_nat_def by simp
qed

lemma mantissa_is_zero_iff: "mantissa_is_zero d \<longleftrightarrow> mantissa_nat d = 0"
  by (auto simp add: mantissa_is_zero_def mantissa_nat_def unat_eq_0)

lemma sint_eq_uint:
  assumes "uint (w::'a::len word) < 2 ^ (LENGTH('a) - 1)"
  shows "sint w = uint w"
proof -
  have "- (2 ^ (LENGTH('a) - 1)) \<le> uint w"
    by (rule order_trans[of _ 0]) simp_all
  then have "signed_take_bit (LENGTH('a) - 1) (uint w) = uint w"
    using assms by (rule signed_take_bit_int_eq_self)
  then show ?thesis by (simp add: sint_uint)
qed

lemma sint_eq_uint_minus:
  assumes "2 ^ (LENGTH('a) - 1) \<le> uint (w::'a::len word)"
  shows "sint w = uint w - 2 ^ LENGTH('a)"
proof -
  define n where "n = LENGTH('a) - 1"
  have L: "LENGTH('a) = Suc n" by (simp add: n_def)
  have lo: "2 ^ n \<le> uint w" using assms by (simp add: n_def)
  have hi: "uint w < 2 ^ Suc n" using uint_lt2p[of w] by (simp add: L)
  have e: "uint w + 2 ^ n = (uint w - 2 ^ n) + 1 * 2 ^ Suc n"
    by simp
  have "(uint w + 2 ^ n) mod 2 ^ Suc n = (uint w - 2 ^ n) mod 2 ^ Suc n"
    unfolding e by (simp only: mod_mult_self1)
  also have "\<dots> = uint w - 2 ^ n"
    using lo hi by (intro mod_pos_pos_trivial) simp_all
  finally have "take_bit (Suc n) (uint w + 2 ^ n) = uint w - 2 ^ n"
    by (simp add: take_bit_eq_mod)
  then have "signed_take_bit n (uint w) = uint w - 2 ^ n - 2 ^ n"
    by (simp add: signed_take_bit_eq_take_bit_shift)
  then show ?thesis by (simp add: sint_uint L n_def[symmetric])
qed

lemma sint_eq_unat:
  assumes "unat (w::128 word) < 2 ^ 127"
  shows "sint w = int (unat w)"
proof -
  have "int (unat w) < int (2 ^ 127)" using assms by (simp only: of_nat_less_iff)
  then have "uint w < 2 ^ 127" by (simp only: uint_nat of_nat_power of_nat_numeral)
  moreover have "LENGTH(128) - 1 = 127" by simp
  ultimately have "uint w < 2 ^ (LENGTH(128) - 1)" by (simp only:)
  then have "sint w = uint w" by (rule sint_eq_uint)
  then show ?thesis by (simp only: uint_nat)
qed

lemma sint_mantissaAsInt128: "sint (mantissaAsInt128 d) = int (mantissa_nat d)"
proof -
  have "mantissa_nat d < 2 ^ 96" by (rule mantissa_nat_less)
  also have "(2::nat) ^ 96 \<le> 2 ^ 127" by (rule power_increasing) simp_all
  finally have "unat (mantissaAsInt128 d) < 2 ^ 127" by (simp only: unat_mantissaAsInt128)
  then have "sint (mantissaAsInt128 d) = int (unat (mantissaAsInt128 d))"
    by (rule sint_eq_unat)
  then show ?thesis by (simp only: unat_mantissaAsInt128)
qed

section \<open>Construction from an Int128: the overflow boundary\<close>

lemma Int128_min_eq: "Int128_min = 2 ^ 127"
  by (simp add: Int128_min_def Int128_of_words_def BITS_PER_UINT64_def)

lemma sint_Int128_min: "sint Int128_min = - (2 ^ 127)"
  unfolding Int128_min_eq by simp

lemma sint_ne_min:
  assumes "v \<noteq> Int128_min"
  shows "- (2 ^ 127) < sint v"
proof -
  have "sint v \<noteq> sint Int128_min" using assms signed_word_eqI[of v Int128_min] by blast
  moreover have "- (2 ^ (LENGTH(128) - 1)) \<le> sint v" by (rule sint_ge)
  ultimately show ?thesis by (simp add: sint_Int128_min)
qed

lemma sint_Int128_abs:
  assumes "v \<noteq> Int128_min"
  shows "sint (Int128_abs v) = \<bar>sint v\<bar>"
proof (cases "sint v < 0")
  case True
  have lo: "- (2 ^ 127) < sint v" using assms by (rule sint_ne_min)
  have "signed_take_bit 127 (- sint v) = - sint v"
    using lo True by (intro signed_take_bit_int_eq_self) simp_all
  then show ?thesis using True by (simp add: Int128_abs_def sint_word_minus)
next
  case False
  then show ?thesis by (simp add: Int128_abs_def)
qed


lemma uint_eq_sint:
  assumes "0 \<le> sint (w::'a::len word)"
  shows "uint w = sint w"
proof (cases "uint w < 2 ^ (LENGTH('a) - 1)")
  case True
  then show ?thesis by (simp add: sint_eq_uint)
next
  case False
  then have "sint w = uint w - 2 ^ LENGTH('a)" by (simp add: sint_eq_uint_minus)
  moreover have "uint w < 2 ^ LENGTH('a)" by (rule uint_lt2p)
  ultimately show ?thesis using assms by simp
qed

lemma unat_eq_sint:
  assumes "0 \<le> sint (w::'a::len word)"
  shows "unat w = nat (sint w)"
  by (simp only: unat_eq_nat_uint uint_eq_sint[OF assms])

lemma toHigh_gt_iff: "toHigh a > UINT32_MAX_VALUE \<longleftrightarrow> 2 ^ 96 \<le> unat a"
proof -
  have "toHigh a > UINT32_MAX_VALUE \<longleftrightarrow> unat UINT32_MAX_VALUE < unat (toHigh a)"
    by (simp only: word_less_nat_alt)
  also have "\<dots> \<longleftrightarrow> 2 ^ 32 \<le> unat a div 2 ^ 64"
    unfolding UINT32_MAX_VALUE_def unat_toHigh by simp linarith
  also have "\<dots> \<longleftrightarrow> 2 ^ 32 * 2 ^ 64 \<le> unat a"
    by (rule less_eq_div_iff_mult_less_eq) simp
  finally show ?thesis by simp
qed

lemma Decimal_of_Int128_cases:
  "(\<bar>sint val\<bar> \<le> 2 ^ 96 - 1 \<longrightarrow>
      (\<exists>d. Decimal_of_Int128 val = Inr d \<and> mantissa_nat d = nat \<bar>sint val\<bar> \<and>
           flags d = (if sint val < 0 then DECIMAL_SIGN_MASK else 0))) \<and>
   (2 ^ 96 - 1 < \<bar>sint val\<bar> \<longrightarrow> Decimal_of_Int128 val = Inl overflow_error)"
proof (cases "val = 0")
  case True
  then show ?thesis
    by (simp add: Decimal_of_Int128_def Decimal_zero_def mantissa_nat_def)
next
  case nz: False
  show ?thesis
  proof (cases "val = Int128_min")
    case True
    then show ?thesis using nz
      by (simp add: Decimal_of_Int128_def sint_Int128_min)
  next
    case False
    define a where "a = Int128_abs val"
    have sa: "sint a = \<bar>sint val\<bar>" unfolding a_def using False by (rule sint_Int128_abs)
    then have ua: "unat a = nat \<bar>sint val\<bar>" using unat_eq_sint[of a] by simp
    have hi: "toHigh a > UINT32_MAX_VALUE \<longleftrightarrow> 2 ^ 96 - 1 < \<bar>sint val\<bar>"
      unfolding toHigh_gt_iff ua by auto
    show ?thesis
    proof (cases "2 ^ 96 - 1 < \<bar>sint val\<bar>")
      case True
      then show ?thesis using nz False hi
        by (simp add: Decimal_of_Int128_def a_def[symmetric] Let_def)
    next
      case le: False
      then have "unat a < 2 ^ 96" unfolding ua by auto
      then have m: "unat a mod 2 ^ 96 = nat \<bar>sint val\<bar>" using ua by simp
      show ?thesis using nz False hi le m
        by (simp add: Decimal_of_Int128_def a_def[symmetric] Let_def mantissa_nat_setMantissa
            flags_setMantissa Decimal_zero_def Int128_less_def)
    qed
  qed
qed

lemma flags_sign_only:
  assumes "flags d = (if b then DECIMAL_SIGN_MASK else 0)"
  shows "scale d = 0" and "isNegative d = b"
  using assms
  by (simp_all add: scale_def isNegative_def DECIMAL_SIGN_MASK_def DECIMAL_SCALE_MASK_def
      DECIMAL_SCALE_SHIFT_def)

text \<open>
  Claim C5. \<^verbatim>\<open>Decimal(const Int128&)\<close> succeeds exactly when the magnitude of the Int128
  is at most \<open>2^96 - 1\<close>: the mantissa is then the absolute value, the scale is 0 and the
  sign bit is set exactly for a negative value. For every larger magnitude, the minimum
  \<open>-2^127\<close> among them, the constructor fails with an overflow error.
\<close>

theorem Decimal_of_Int128_range:
  "(\<bar>sint val\<bar> \<le> 2 ^ 96 - 1 \<longrightarrow>
      (\<exists>d. Decimal_of_Int128 val = Inr d \<and> mantissa_nat d = nat \<bar>sint val\<bar> \<and>
           scale d = 0 \<and> isNegative d = (sint val < 0))) \<and>
   (2 ^ 96 - 1 < \<bar>sint val\<bar> \<longrightarrow> Decimal_of_Int128 val = Inl overflow_error) \<and>
   Decimal_of_Int128 Int128_min = Inl overflow_error"
proof -
  have "Decimal_of_Int128 Int128_min = Inl overflow_error"
    using Decimal_of_Int128_cases[of Int128_min] by (simp add: sint_Int128_min)
  moreover have "\<exists>d. Decimal_of_Int128 val = Inr d \<and> mantissa_nat d = nat \<bar>sint val\<bar> \<and>
           scale d = 0 \<and> isNegative d = (sint val < 0)" if "\<bar>sint val\<bar> \<le> 2 ^ 96 - 1"
  proof -
    from that Decimal_of_Int128_cases[of val] obtain d where
      d: "Decimal_of_Int128 val = Inr d" "mantissa_nat d = nat \<bar>sint val\<bar>"
         "flags d = (if sint val < 0 then DECIMAL_SIGN_MASK else 0)"
      by blast
    from flags_sign_only[OF d(3)] d(1,2) show ?thesis by blast
  qed
  ultimately show ?thesis using Decimal_of_Int128_cases[of val] by blast
qed

theorem Decimal_of_Int128_range_witness:
  "(\<exists>d. Decimal_of_Int128 79228162514264337593543950335 = Inr d \<and>
        mantissa_nat d = 79228162514264337593543950335 \<and> scale d = 0 \<and> \<not> isNegative d) \<and>
   (\<exists>d. Decimal_of_Int128 (- 79228162514264337593543950335) = Inr d \<and>
        mantissa_nat d = 79228162514264337593543950335 \<and> scale d = 0 \<and> isNegative d) \<and>
   Decimal_of_Int128 79228162514264337593543950336 = Inl overflow_error \<and>
   Decimal_of_Int128 (- 79228162514264337593543950336) = Inl overflow_error"
  using Decimal_of_Int128_range[of 79228162514264337593543950335]
    Decimal_of_Int128_range[of "- 79228162514264337593543950335"]
    Decimal_of_Int128_range[of 79228162514264337593543950336]
    Decimal_of_Int128_range[of "- 79228162514264337593543950336"]
  by simp

section \<open>Equality of zeros\<close>

text \<open>
  Claim C8. \<^verbatim>\<open>Decimal::operator==\<close> returns true whenever the three mantissa words of
  both operands are zero, whatever their sign and scale bits. Negating the default zero
  sets its stored sign bit, and the result still compares equal to the default zero.
\<close>

theorem Decimal_eq_zeros:
  "(mantissa_is_zero a \<and> mantissa_is_zero b \<longrightarrow> Decimal_eq a b) \<and>
   flags (Decimal_neg Decimal_zero) = DECIMAL_SIGN_MASK \<and>
   Decimal_eq (Decimal_neg Decimal_zero) Decimal_zero"
  by (simp add: Decimal_eq_def mantissa_is_zero_def Decimal_neg_def Decimal_zero_def)

theorem Decimal_eq_zeros_witness:
  "mantissa_is_zero \<lparr>flags = 0x80050000, mantissa0 = 0, mantissa1 = 0, mantissa2 = 0\<rparr> \<and>
   mantissa_is_zero \<lparr>flags = 0x00020000, mantissa0 = 0, mantissa1 = 0, mantissa2 = 0\<rparr> \<and>
   Decimal_eq \<lparr>flags = 0x80050000, mantissa0 = 0, mantissa1 = 0, mantissa2 = 0\<rparr>
     \<lparr>flags = 0x00020000, mantissa0 = 0, mantissa1 = 0, mantissa2 = 0\<rparr>"
  using Decimal_eq_zeros[of "\<lparr>flags = 0x80050000, mantissa0 = 0, mantissa1 = 0, mantissa2 = 0\<rparr>"
      "\<lparr>flags = 0x00020000, mantissa0 = 0, mantissa1 = 0, mantissa2 = 0\<rparr>"]
  by (simp add: mantissa_is_zero_def)

section \<open>Division of non-negative values\<close>

lemma sint_word_of_int_128:
  assumes "- (2 ^ 127) \<le> k" and "k < 2 ^ 127"
  shows "sint (word_of_int k :: Int128) = k"
proof -
  have "signed_take_bit 127 k = k" using assms by (rule signed_take_bit_int_eq_self)
  then show ?thesis by (simp add: sint_sbintrunc')
qed

lemma sint_lt_128: "sint (a :: Int128) < 2 ^ 127"
  using sint_lt[of a] by simp

lemma sint_ge_128: "- (2 ^ 127) \<le> sint (a :: Int128)"
  using sint_ge[of a] by simp

lemma sdiv_nonneg: "0 \<le> (a::int) \<Longrightarrow> 0 < b \<Longrightarrow> a sdiv b = a div b"
  by (cases "a = 0") (simp_all add: signed_divide_int_def)

lemma smod_nonneg: "0 \<le> (a::int) \<Longrightarrow> 0 < b \<Longrightarrow> a smod b = a mod b"
  by (cases "a = 0") (simp_all add: signed_modulo_int_def)

lemma Int128_div_nonneg:
  assumes "0 \<le> sint a" and "0 < sint b"
  shows "\<exists>q. Int128_div a b = Inr q \<and> sint q = sint a div sint b"
proof -
  have b: "b \<noteq> 0" using assms(2) by auto
  have "sint a div sint b \<le> sint a"
    using assms by (simp add: zdiv_mono2 [of "sint a" 1 "sint b", simplified])
  then have hi: "sint a div sint b < 2 ^ 127" using sint_lt_128[of a] by linarith
  have lo: "0 \<le> sint a div sint b" using assms by (simp add: pos_imp_zdiv_nonneg_iff)
  have "sint (word_of_int (sint a div sint b) :: Int128) = sint a div sint b"
    using lo hi by (intro sint_word_of_int_128) linarith+
  then show ?thesis using b assms by (simp add: Int128_div_def sdiv_nonneg)
qed

lemma Int128_mod_nonneg:
  assumes "0 \<le> sint a" and "0 < sint b"
  shows "\<exists>r. Int128_mod a b = Inr r \<and> sint r = sint a mod sint b"
proof -
  have b: "b \<noteq> 0" using assms(2) by auto
  have "sint a mod sint b < sint b" using assms(2) by simp
  then have hi: "sint a mod sint b < 2 ^ 127" using sint_lt_128[of b] by linarith
  have lo: "0 \<le> sint a mod sint b" using assms by simp
  have "sint (word_of_int (sint a mod sint b) :: Int128) = sint a mod sint b"
    using lo hi by (intro sint_word_of_int_128) linarith+
  then show ?thesis using b assms by (simp add: Int128_mod_def smod_nonneg)
qed

section \<open>Multiplication, division and rounding\<close>

subsection \<open>Multiplication\<close>

text \<open>Modelled from the spec: \<^verbatim>\<open>constants::DECIMAL_96BIT_MAX_LOW\<close> and
  \<^verbatim>\<open>DECIMAL_96BIT_MAX_HIGH\<close> of the missing Constants.h, the two halves of \<open>2^96 - 1\<close>
  (the comment of \<^verbatim>\<open>operator*\<close>: "max value: 2^96 - 1").\<close>

definition DECIMAL_96BIT_MAX_LOW :: "64 word" where
  "DECIMAL_96BIT_MAX_LOW = 0xFFFFFFFFFFFFFFFF"

definition DECIMAL_96BIT_MAX_HIGH :: "64 word" where
  "DECIMAL_96BIT_MAX_HIGH = 0xFFFFFFFF"

definition max96bit :: Int128 where
  "max96bit = Int128_of_words DECIMAL_96BIT_MAX_LOW DECIMAL_96BIT_MAX_HIGH"

lemma sint_max96bit: "sint max96bit = 2 ^ 96 - 1"
  by (simp add: max96bit_def Int128_of_words_def DECIMAL_96BIT_MAX_LOW_def
      DECIMAL_96BIT_MAX_HIGH_def BITS_PER_UINT64_def)

lemma sint_ten: "sint (of_nat DECIMAL_BASE :: Int128) = 10"
  by (simp add: DECIMAL_BASE_def)

lemma Int128_div_ten_decreases:
  assumes "Int128_greater p max96bit" and "Int128_div p (of_nat DECIMAL_BASE) = Inr q"
  shows "nat (sint q) < nat (sint p)"
proof -
  have p: "2 ^ 96 - 1 < sint p" using assms(1) by (simp add: Int128_greater_def sint_max96bit)
  then have "0 \<le> sint p" by simp
  from Int128_div_nonneg[OF this, of "of_nat DECIMAL_BASE"] assms(2)
  have "sint q = sint p div 10" by (simp add: sint_ten)
  then show ?thesis using p by simp
qed

text \<open>The pre-scaling of one operand of \<^verbatim>\<open>operator*\<close>: divide by a power of ten, rounding
  at the midpoint.\<close>

definition mul_prescale :: "Int128 \<Rightarrow> 8 word \<Rightarrow> error + Int128" where
  "mul_prescale m reduction =
     (if 0 < reduction
      then bindE (Int128_div (powerOf10 reduction) 2)
             (\<lambda>half. Int128_div (m + half) (powerOf10 reduction))
      else Inr m)"

text \<open>The first loop of \<^verbatim>\<open>operator*\<close>: while the product exceeds 96 bits and the scale is
  positive, divide by ten (adding 5 first) and take one from the scale.\<close>

function mul_reduce_loop :: "Int128 \<Rightarrow> 8 word \<Rightarrow> error + (Int128 \<times> 8 word)" where
  "mul_reduce_loop productMantissa newScale =
     (if Int128_greater productMantissa max96bit \<and> 0 < newScale
      then (case Int128_div (productMantissa + 5) (of_nat DECIMAL_BASE) of
              Inl e \<Rightarrow> Inl e
            | Inr q \<Rightarrow> mul_reduce_loop q (newScale - 1))
      else Inr (productMantissa, newScale))"
  by pat_completeness auto
termination
proof (relation "measure (\<lambda>(p, s). unat s)")
  show "wf (measure (\<lambda>(p :: Int128, s :: 8 word). unat s))" by simp
next
  fix productMantissa :: Int128 and newScale :: "8 word" and q :: Int128
  assume "Int128_greater productMantissa max96bit \<and> 0 < newScale"
  then have "newScale \<noteq> 0" by auto
  then have "unat (newScale - 1) < unat newScale" by (rule measure_unat)
  then show "((q, newScale - 1), (productMantissa, newScale)) \<in> measure (\<lambda>(p, s). unat s)"
    by simp
qed

declare mul_reduce_loop.simps [simp del]

text \<open>The second loop of \<^verbatim>\<open>operator*\<close>: while the product exceeds 96 bits, divide by ten.\<close>

function mul_truncate_loop :: "Int128 \<Rightarrow> error + Int128" where
  "mul_truncate_loop productMantissa =
     (if Int128_greater productMantissa max96bit
      then (case Int128_div productMantissa (of_nat DECIMAL_BASE) of
              Inl e \<Rightarrow> Inl e
            | Inr q \<Rightarrow> mul_truncate_loop q)
      else Inr productMantissa)"
  by pat_completeness auto
termination
proof (relation "measure (\<lambda>p. nat (sint p))")
  show "wf (measure (\<lambda>p :: Int128. nat (sint p)))" by simp
next
  fix productMantissa q :: Int128
  assume "Int128_greater productMantissa max96bit"
    and "Int128_div productMantissa (of_nat DECIMAL_BASE) = Inr q"
  then have "nat (sint q) < nat (sint productMantissa)"
    by (rule Int128_div_ten_decreases)
  then show "(q, productMantissa) \<in> measure (\<lambda>p. nat (sint p))"
    by simp
qed

declare mul_truncate_loop.simps [simp del]

text \<open>The end of \<^verbatim>\<open>operator*\<close> and of \<^verbatim>\<open>operator/\<close>: store the mantissa, write the
  scale, combine the signs. (The scale is a \<^verbatim>\<open>std::uint8_t\<close> in the first and a
  \<^verbatim>\<open>std::int32_t\<close> in the second; both are cast to \<^verbatim>\<open>std::uint32_t\<close> and shifted.)\<close>

definition product_result :: "Decimal \<Rightarrow> Decimal \<Rightarrow> Int128 \<Rightarrow> 32 word \<Rightarrow> Decimal" where
  "product_result this other m newScale =
     (let result0 = setMantissa Decimal_zero m;
          result1 = result0\<lparr>flags := push_bit DECIMAL_SCALE_SHIFT newScale\<rparr>
      in if Decimal_less this Decimal_zero \<noteq> Decimal_less other Decimal_zero
         then setSign result1 else result1)"

text \<open>The operands of the product and its scale: when the scales add up to more than 28,
  the excess is taken off the two mantissas, half each, before they are multiplied.\<close>

definition mul_operands :: "Decimal \<Rightarrow> Decimal \<Rightarrow> error + (Int128 \<times> Int128 \<times> 8 word)" where
  "mul_operands this other =
     (let left = mantissaAsInt128 this;
          right = mantissaAsInt128 other;
          newScale = scale this + scale other
      in if DECIMAL_MAXIMUM_PLACES < unat newScale
         then (let excessScale = newScale - of_nat DECIMAL_MAXIMUM_PLACES;
                   leftReduction = excessScale div 2;
                   rightReduction = excessScale - leftReduction
               in bindE (mul_prescale left leftReduction) (\<lambda>l.
                  bindE (mul_prescale right rightReduction) (\<lambda>r.
                    Inr (l, r, of_nat DECIMAL_MAXIMUM_PLACES))))
         else Inr (left, right, newScale))"

text \<open>\<^verbatim>\<open>Decimal::operator*\<close>.\<close>

definition Decimal_mul :: "Decimal \<Rightarrow> Decimal \<Rightarrow> error + Decimal" where
  "Decimal_mul this other =
     (if Decimal_eq this Decimal_zero \<or> Decimal_eq other Decimal_zero then Inr Decimal_zero
      else
        bindE (mul_operands this other) (\<lambda>(left, right, newScale).
        bindE (mul_reduce_loop (left * right) newScale) (\<lambda>(productMantissa, newScale).
        bindE (if Int128_greater productMantissa max96bit
               then mul_truncate_loop productMantissa
               else Inr productMantissa) (\<lambda>productMantissa.
          normalize (product_result this other productMantissa (ucast newScale))))))"

subsection \<open>Division\<close>

text \<open>
  \<^verbatim>\<open>Decimal::operator/\<close> reads two constants of the missing Constants.h whose values
  nothing in the sources fixes: \<^verbatim>\<open>DECIMAL_DIVISION_EXTRA_PRECISION\<close> (here \<open>extra\<close>) and
  \<^verbatim>\<open>INT128_MUL10_OVERFLOW_THRESHOLD\<close> (here \<open>threshold\<close>). They are parameters. The
  scales and the target precision are \<^verbatim>\<open>std::int32_t\<close> in the source and of type \<open>int\<close>
  here: they stay far below the 32-bit range for any \<open>extra\<close> of a few digits.
\<close>

text \<open>The loop scaling the dividend up: \<open>n\<close> turns are left, \<open>i\<close> is the loop counter. Both
  exits before the end set the target precision to \<open>i + dividendScale - divisorScale\<close>, or 0
  if that is negative.\<close>

fun div_scale_loop ::
  "64 word \<Rightarrow> int \<Rightarrow> int \<Rightarrow> nat \<Rightarrow> int \<Rightarrow> Int128 \<Rightarrow> int \<Rightarrow> Int128 \<times> int" where
  "div_scale_loop threshold dividendScale divisorScale 0 i dividend targetPrecision =
     (dividend, targetPrecision)"
| "div_scale_loop threshold dividendScale divisorScale (Suc n) i dividend targetPrecision =
     (if threshold < toHigh dividend
      then (dividend, max 0 (i + dividendScale - divisorScale))
      else let newDividend = dividend * of_nat DECIMAL_BASE
           in if Int128_less newDividend dividend
              then (dividend, max 0 (i + dividendScale - divisorScale))
              else div_scale_loop threshold dividendScale divisorScale n (i + 1)
                     newDividend targetPrecision)"

text \<open>The loop reducing the quotient: while it exceeds 96 bits and the target precision is
  positive, divide by ten and take one from the precision.\<close>

function div_reduce_loop :: "Int128 \<Rightarrow> int \<Rightarrow> error + (Int128 \<times> int)" where
  "div_reduce_loop quotientMantissa targetPrecision =
     (if 0xFFFFFFFF < toHigh quotientMantissa \<and> 0 < targetPrecision
      then (case Int128_div quotientMantissa (of_nat DECIMAL_BASE) of
              Inl e \<Rightarrow> Inl e
            | Inr q \<Rightarrow> div_reduce_loop q (targetPrecision - 1))
      else Inr (quotientMantissa, targetPrecision))"
  by pat_completeness auto
termination
  by (relation "measure (\<lambda>(q, p). nat p)") auto

declare div_reduce_loop.simps [simp del]

text \<open>The dividend scaled up and the target precision, as they stand before the division
  of the mantissas.\<close>

definition div_operands :: "int \<Rightarrow> 64 word \<Rightarrow> Decimal \<Rightarrow> Decimal \<Rightarrow> Int128 \<times> int" where
  "div_operands extra threshold this other =
     (let dividend = mantissaAsInt128 this;
          dividendScale = uint (scale this);
          divisorScale = uint (scale other);
          targetPrecision0 = max dividendScale divisorScale + extra;
          targetPrecision1 = (if int DECIMAL_MAXIMUM_PLACES < targetPrecision0
                              then int DECIMAL_MAXIMUM_PLACES else targetPrecision0);
          scaleUpBy = divisorScale + targetPrecision1 - dividendScale
      in if 0 < scaleUpBy
         then div_scale_loop threshold dividendScale divisorScale (nat scaleUpBy) 0
                dividend targetPrecision1
         else if scaleUpBy < 0
         then (dividend, max 0 (dividendScale - divisorScale))
         else (dividend, targetPrecision1))"

text \<open>\<^verbatim>\<open>Decimal::operator/\<close>.\<close>

definition Decimal_div :: "int \<Rightarrow> 64 word \<Rightarrow> Decimal \<Rightarrow> Decimal \<Rightarrow> error + Decimal" where
  "Decimal_div extra threshold this other =
     (if Decimal_eq other Decimal_zero then Inl overflow_error
      else if Decimal_eq this Decimal_zero then Inr Decimal_zero
      else
        (case div_operands extra threshold this other of
           (dividend, targetPrecision) \<Rightarrow>
             bindE (Int128_div dividend (mantissaAsInt128 other)) (\<lambda>quotientMantissa.
             bindE (div_reduce_loop quotientMantissa targetPrecision) (\<lambda>(q, targetPrecision).
               normalize (product_result this other q (word_of_int targetPrecision))))))"

subsection \<open>Rounding\<close>

datatype RoundingMode =
  ToNearest | ToNearestTiesAway | ToZero | ToPositiveInfinity | ToNegativeInfinity

definition shouldRoundUpToNearest ::
  "Int128 \<Rightarrow> Int128 \<Rightarrow> Int128 \<Rightarrow> 8 word \<Rightarrow> Decimal \<Rightarrow> error + bool" where
  "shouldRoundUpToNearest roundingDigit mantissa divisor digitsToRemove result =
     (if DECIMAL_ROUNDING_THRESHOLD < toLow roundingDigit then Inr True
      else if toLow roundingDigit = DECIMAL_ROUNDING_THRESHOLD
      then bindE (if 1 < digitsToRemove
                  then bindE (Int128_mod mantissa divisor) (\<lambda>remainder.
                       bindE (Int128_div divisor (of_nat DECIMAL_BASE)) (\<lambda>d.
                         Inr (remainder \<noteq> roundingDigit * d)))
                  else Inr False)
             (\<lambda>hasRemainingFraction.
                if hasRemainingFraction then Inr True
                else bindE (Int128_mod (mantissaAsInt128 result) 2) (\<lambda>r.
                       let isEven = (r = 0) in Inr (\<not> isEven)))
      else Inr False)"

definition shouldRoundUpToNearestTiesAway :: "Int128 \<Rightarrow> bool" where
  "shouldRoundUpToNearestTiesAway roundingDigit =
     (DECIMAL_ROUNDING_THRESHOLD \<le> toLow roundingDigit)"

definition shouldRoundUpToPositiveInfinity :: "Int128 \<Rightarrow> 8 word \<Rightarrow> bool \<Rightarrow> error + bool" where
  "shouldRoundUpToPositiveInfinity mantissa digitsToRemove isNeg =
     (if isNeg then Inr False
      else if 0 < digitsToRemove
      then bindE (Int128_mod mantissa (powerOf10 digitsToRemove))
             (\<lambda>fractionalPart. Inr (fractionalPart \<noteq> 0))
      else Inr False)"

definition shouldRoundUpToNegativeInfinity :: "Int128 \<Rightarrow> 8 word \<Rightarrow> bool \<Rightarrow> error + bool" where
  "shouldRoundUpToNegativeInfinity mantissa digitsToRemove isNeg =
     (if \<not> isNeg then Inr False
      else if 0 < digitsToRemove
      then bindE (Int128_mod mantissa (powerOf10 digitsToRemove))
             (\<lambda>fractionalPart. Inr (fractionalPart \<noteq> 0))
      else Inr False)"

text \<open>The truncation loop of \<^verbatim>\<open>round\<close>: \<open>n\<close> divisions of the mantissa by ten.\<close>

fun round_truncate_loop :: "nat \<Rightarrow> Decimal \<Rightarrow> error + Decimal" where
  "round_truncate_loop 0 result = Inr result"
| "round_truncate_loop (Suc n) result =
     bindE (divideByPowerOf10 result 1) (round_truncate_loop n)"

text \<open>\<^verbatim>\<open>Decimal::round\<close>. The requested number of places is a \<^verbatim>\<open>std::int32_t\<close>, here an
  \<open>int\<close>. The loop that builds the divisor multiplies 1 by ten \<open>digitsToRemove - 1\<close> times,
  as the fall-back loop of \<^verbatim>\<open>powerOf10\<close> does.\<close>

definition Decimal_round :: "Decimal \<Rightarrow> int \<Rightarrow> RoundingMode \<Rightarrow> error + Decimal" where
  "Decimal_round this decimalsPlacesCount0 mode =
     (let decimalsPlacesCount = (if decimalsPlacesCount0 < 0 then 0 else decimalsPlacesCount0);
          thisZero = (mantissa0 this = 0 \<and> mantissa1 this = 0 \<and> mantissa2 this = 0)
      in if uint (scale this) \<le> decimalsPlacesCount \<or> thisZero then Inr this
         else
           let currentScale = scale this;
               targetScale = (word_of_int decimalsPlacesCount :: 8 word);
               digitsToRemove = currentScale - targetScale;
               mantissa = mantissaAsInt128 this;
               divisor = (if 1 < digitsToRemove
                          then powerOf10_loop (unat (digitsToRemove - 1)) 1 else 1);
               thisNeg = (flags this AND DECIMAL_SIGN_MASK \<noteq> 0)
           in bindE (Int128_div mantissa divisor) (\<lambda>q.
              bindE (Int128_mod q (of_nat DECIMAL_BASE)) (\<lambda>roundingDigit.
              bindE (round_truncate_loop (unat digitsToRemove) this) (\<lambda>result0.
                let result = result0\<lparr>flags := (flags result0 AND NOT DECIMAL_SCALE_MASK)
                                OR push_bit DECIMAL_SCALE_SHIFT (ucast targetScale)\<rparr>
                in bindE (case mode of
                            ToNearest \<Rightarrow>
                              shouldRoundUpToNearest roundingDigit mantissa divisor digitsToRemove result
                          | ToNearestTiesAway \<Rightarrow> Inr (shouldRoundUpToNearestTiesAway roundingDigit)
                          | ToZero \<Rightarrow> Inr False
                          | ToPositiveInfinity \<Rightarrow>
                              shouldRoundUpToPositiveInfinity mantissa digitsToRemove thisNeg
                          | ToNegativeInfinity \<Rightarrow>
                              shouldRoundUpToNegativeInfinity mantissa digitsToRemove thisNeg)
                     (\<lambda>shouldRoundUp.
                        if shouldRoundUp
                        then Inr (setMantissa result (mantissaAsInt128 result + 1))
                        else Inr result)))))"

section \<open>The text codec of Decimal\<close>

subsection \<open>Parsing\<close>

definition is_digit :: "char \<Rightarrow> bool" where
  "is_digit c = (48 \<le> (of_char c :: nat) \<and> (of_char c :: nat) \<le> 57)"

definition digit_value :: "char \<Rightarrow> nat" where
  "digit_value c = of_char c - 48"

text \<open>The first loop of \<^verbatim>\<open>Decimal::fromString\<close>: find the decimal point from index \<open>i\<close> on,
  and fail on a second one. \<open>None\<close> for the position is \<^verbatim>\<open>npos\<close>.\<close>

fun scan_points :: "char list \<Rightarrow> nat \<Rightarrow> nat \<Rightarrow> nat option \<Rightarrow> nat option option" where
  "scan_points [] i decimalCount decimalPos = Some decimalPos"
| "scan_points (c # cs) i decimalCount decimalPos =
     (if c = CHR ''.''
      then (if 1 < decimalCount + 1 then None
            else scan_points cs (i + 1) (decimalCount + 1) (Some i))
      else scan_points cs (i + 1) decimalCount decimalPos)"

record parse_state =
  mantissaValue :: Int128
  currentScale :: "8 word"
  hasDigits :: bool
  significantDigits :: "8 word"
  decimalDigitsProcessed :: "8 word"

text \<open>The digit loop of \<^verbatim>\<open>Decimal::fromString\<close> from index \<open>i\<close> on. \<open>None\<close> is the
  \<^verbatim>\<open>return false\<close> on a character that is neither a digit nor the point; the loop ends
  at the end of the string or, by \<^verbatim>\<open>break\<close>, at the first digit met once 28 significant
  digits are in the mantissa.\<close>

fun parse_digits :: "nat option \<Rightarrow> char list \<Rightarrow> nat \<Rightarrow> parse_state \<Rightarrow> parse_state option" where
  "parse_digits decimalPos [] i st = Some st"
| "parse_digits decimalPos (c # cs) i st =
     (if c = CHR ''.'' then parse_digits decimalPos cs (i + 1) st
      else if \<not> is_digit c then None
      else
        let st1 = st\<lparr>hasDigits := True\<rparr>;
            digit = digit_value c
        in if DECIMAL_MAXIMUM_PLACES \<le> unat (significantDigits st1)
           then Some (if decimalPos \<noteq> None
                      then st1\<lparr>currentScale := decimalDigitsProcessed st1\<rparr>
                      else st1)
           else
             let afterPoint = (case decimalPos of None \<Rightarrow> False | Some p \<Rightarrow> p < i);
                 st2 = (if digit \<noteq> 0 \<or> mantissaValue st1 \<noteq> 0 \<or> afterPoint
                        then st1\<lparr>significantDigits := significantDigits st1 + 1\<rparr>
                        else st1);
                 st3 = (if afterPoint
                        then st2\<lparr>decimalDigitsProcessed := decimalDigitsProcessed st2 + 1\<rparr>
                        else st2);
                 st4 = st3\<lparr>mantissaValue :=
                              mantissaValue st3 * of_nat DECIMAL_BASE + of_nat digit\<rparr>
             in parse_digits decimalPos cs (i + 1) st4)"

lemma div_ten_less:
  assumes "0 \<le> (y::int)" and "y \<le> N" and "0 < N"
  shows "y div 10 < N"
proof (cases "y = 0")
  case True
  then show ?thesis using assms by simp
next
  case False
  then have "y div 10 < y" using assms(1) by (intro int_div_less_self) simp_all
  then show ?thesis using assms(2) by simp
qed

lemma Int128_div_ten_abs:
  assumes "Int128_div m (of_nat DECIMAL_BASE) = Inr q"
  shows "\<bar>sint q\<bar> = \<bar>sint m\<bar> div 10"
proof -
  have q: "q = word_of_int (sint m sdiv 10)"
    using assms by (simp add: Int128_div_def DECIMAL_BASE_def split: if_splits)
  have a: "\<bar>sint m sdiv 10\<bar> = \<bar>sint m\<bar> div 10"
    by (cases "sint m = 0") (simp_all add: signed_divide_int_def abs_mult abs_sgn_eq)
  have "\<bar>sint m\<bar> \<le> 2 ^ 127" using sint_lt_128[of m] sint_ge_128[of m] by linarith
  then have "\<bar>sint m\<bar> div 10 < 2 ^ 127" by (intro div_ten_less) simp_all
  then have "- (2 ^ 127) \<le> sint m sdiv 10" "sint m sdiv 10 < 2 ^ 127"
    using a by linarith+
  then have "sint q = sint m sdiv 10" unfolding q by (rule sint_word_of_int_128)
  then show ?thesis using a by simp
qed

lemma toHigh_zero: "toHigh 0 = 0"
  by (simp add: toHigh_def)

text \<open>The two loops of \<^verbatim>\<open>Decimal::fromString\<close> that fit the mantissa in 96 bits: the first
  gives up decimal places, the second cuts the integer part.\<close>

function fit_scale_loop :: "Int128 \<Rightarrow> 8 word \<Rightarrow> error + (Int128 \<times> 8 word)" where
  "fit_scale_loop m sc =
     (if UINT32_MAX_VALUE < toHigh m \<and> 0 < sc
      then (case Int128_div m (of_nat DECIMAL_BASE) of
              Inl e \<Rightarrow> Inl e
            | Inr q \<Rightarrow> fit_scale_loop q (sc - 1))
      else Inr (m, sc))"
  by pat_completeness auto
termination
proof (relation "measure (\<lambda>(m, s). unat s)")
  show "wf (measure (\<lambda>(m :: Int128, s :: 8 word). unat s))" by simp
next
  fix m q :: Int128 and sc :: "8 word"
  assume "UINT32_MAX_VALUE < toHigh m \<and> 0 < sc"
  then have "sc \<noteq> 0" by auto
  then have "unat (sc - 1) < unat sc" by (rule measure_unat)
  then show "((q, sc - 1), (m, sc)) \<in> measure (\<lambda>(m, s). unat s)" by simp
qed

declare fit_scale_loop.simps [simp del]

function fit_integer_loop :: "Int128 \<Rightarrow> error + Int128" where
  "fit_integer_loop m =
     (if UINT32_MAX_VALUE < toHigh m
      then (case Int128_div m (of_nat DECIMAL_BASE) of
              Inl e \<Rightarrow> Inl e
            | Inr q \<Rightarrow> fit_integer_loop q)
      else Inr m)"
  by pat_completeness auto
termination
proof (relation "measure (\<lambda>m. nat \<bar>sint m\<bar>)")
  show "wf (measure (\<lambda>m :: Int128. nat \<bar>sint m\<bar>))" by simp
next
  fix m q :: Int128
  assume hi: "UINT32_MAX_VALUE < toHigh m" and d: "Int128_div m (of_nat DECIMAL_BASE) = Inr q"
  have "m \<noteq> 0" using hi by (auto simp add: toHigh_zero)
  then have "sint m \<noteq> 0" by (simp add: signed_eq_0_iff)
  then have "0 < \<bar>sint m\<bar>" by simp
  then have "\<bar>sint m\<bar> div 10 < \<bar>sint m\<bar>" by (intro int_div_less_self) simp_all
  then have "nat \<bar>sint q\<bar> < nat \<bar>sint m\<bar>" using Int128_div_ten_abs[OF d] by simp
  then show "(q, m) \<in> measure (\<lambda>m. nat \<bar>sint m\<bar>)" by simp
qed

declare fit_integer_loop.simps [simp del]

definition fit_mantissa :: "Int128 \<Rightarrow> 8 word \<Rightarrow> error + (Int128 \<times> 8 word)" where
  "fit_mantissa m sc =
     (if UINT32_MAX_VALUE < toHigh m
      then bindE (fit_scale_loop m sc) (\<lambda>(m1, sc1).
           bindE (fit_integer_loop m1) (\<lambda>m2. Inr (m2, sc1)))
      else Inr (m, sc))"

text \<open>The scale before the digits are read: the number of characters after the decimal
  point, cast to \<^verbatim>\<open>std::uint8_t\<close> and capped at 28.\<close>

definition initial_scale :: "string \<Rightarrow> nat option \<Rightarrow> 8 word" where
  "initial_scale str decimalPos =
     (case decimalPos of
        None \<Rightarrow> 0
      | Some p \<Rightarrow>
          let cs = (of_nat (length str - p - 1) :: 8 word)
          in if DECIMAL_MAXIMUM_PLACES < unat cs then of_nat DECIMAL_MAXIMUM_PLACES else cs)"

text \<open>The value \<^verbatim>\<open>fromString\<close> builds before it normalizes: the sign bit, the scale and
  the three limbs taken from the low and the high word of the mantissa.\<close>

definition fromString_result :: "bool \<Rightarrow> Int128 \<Rightarrow> 8 word \<Rightarrow> Decimal" where
  "fromString_result negative m sc =
     (let result0 = (if negative then setSign Decimal_zero else Decimal_zero);
          result1 = result0\<lparr>flags := flags result0 OR push_bit DECIMAL_SCALE_SHIFT (ucast sc)\<rparr>;
          low = toLow m;
          high = toHigh m
      in result1\<lparr>mantissa0 := ucast low,
                 mantissa1 := ucast (drop_bit BITS_PER_UINT32 low),
                 mantissa2 := ucast high\<rparr>)"

text \<open>\<^verbatim>\<open>Decimal::fromString\<close>. \<open>None\<close> is the result \<^verbatim>\<open>false\<close> (or \<^verbatim>\<open>std::nullopt\<close>);
  the \<^verbatim>\<open>catch (...)\<close> of the source turns every exception into it.\<close>

definition Decimal_fromString :: "string \<Rightarrow> Decimal option" where
  "Decimal_fromString str =
     (case str of
        [] \<Rightarrow> None
      | c0 # _ \<Rightarrow>
          let negative = (c0 = CHR ''-'');
              pos = (if c0 = CHR ''-'' \<or> c0 = CHR ''+'' then 1 else 0 :: nat)
          in if length str \<le> pos then None
             else (case scan_points (drop pos str) pos 0 None of
                     None \<Rightarrow> None
                   | Some decimalPos \<Rightarrow>
                       (case parse_digits decimalPos (drop pos str) pos
                               \<lparr>mantissaValue = 0, currentScale = initial_scale str decimalPos,
                                hasDigits = False, significantDigits = 0,
                                decimalDigitsProcessed = 0\<rparr> of
                          None \<Rightarrow> None
                        | Some st \<Rightarrow>
                            if \<not> hasDigits st then None
                            else (case fit_mantissa (mantissaValue st) (currentScale st) of
                                    Inl e \<Rightarrow> None
                                  | Inr (m, sc) \<Rightarrow>
                                      (case normalize (fromString_result negative m sc) of
                                         Inl e \<Rightarrow> None
                                       | Inr d \<Rightarrow> Some d)))))"

subsection \<open>Printing\<close>

text \<open>The digit loops of \<^verbatim>\<open>Decimal::toString\<close> fill the buffer \<^verbatim>\<open>digits\<close> from the least
  significant digit; \<open>n\<close> is the room left in the buffer, whose size
  \<^verbatim>\<open>constants::DECIMAL_MAX_STRING_LENGTH\<close> of the missing Constants.h is a parameter of
  \<open>Decimal_toString\<close>. The first loop works on a 64-bit value, the second on the native
  128-bit value.\<close>

definition digit_char :: "nat \<Rightarrow> char" where
  "digit_char d = char_of (48 + d)"

fun extract_digits_64 :: "nat \<Rightarrow> 64 word \<Rightarrow> char list" where
  "extract_digits_64 0 v = []"
| "extract_digits_64 (Suc n) v =
     (if 0 < v
      then digit_char (unat (v mod of_nat DECIMAL_BASE)) # extract_digits_64 n (v div of_nat DECIMAL_BASE)
      else [])"

fun extract_digits_128 :: "nat \<Rightarrow> Int128 \<Rightarrow> char list" where
  "extract_digits_128 0 m = []"
| "extract_digits_128 (Suc n) m =
     (if m \<noteq> 0
      then digit_char (unat (word_of_int (sint m smod int DECIMAL_BASE) :: Int128))
             # extract_digits_128 n (word_of_int (sint m sdiv int DECIMAL_BASE))
      else [])"

definition Decimal_toString :: "nat \<Rightarrow> Decimal \<Rightarrow> string" where
  "Decimal_toString DECIMAL_MAX_STRING_LENGTH this =
     (if mantissa0 this = 0 \<and> mantissa1 this = 0 \<and> mantissa2 this = 0 then ''0''
      else
        let mantissa = Int128_abs (mantissaAsInt128 this);
            currentScale = unat (scale this);
            digits0 = (if sint mantissa \<le> 2 ^ 64 - 1
                       then extract_digits_64 DECIMAL_MAX_STRING_LENGTH (ucast mantissa)
                       else extract_digits_128 DECIMAL_MAX_STRING_LENGTH mantissa);
            digits = (if digits0 = [] then ''0'' else digits0);
            digitCount = length digits;
            sign = (if flags this AND DECIMAL_SIGN_MASK \<noteq> 0 then ''-'' else '''')
        in if 0 < currentScale
           then (if digitCount \<le> currentScale
                 then sign @ ''0.'' @ replicate (currentScale - digitCount) CHR ''0'' @ rev digits
                 else sign @ rev (drop currentScale digits) @ ''.'' @ rev (take currentScale digits))
           else sign @ rev digits)"

section \<open>The text codec and the square root of Int128\<close>

text \<open>Modelled from the spec: \<^verbatim>\<open>constants::INT128_MAX_DIGIT_COUNT\<close>,
  \<^verbatim>\<open>INT128_MAX_POSITIVE_STRING\<close> and \<^verbatim>\<open>INT128_MAX_NEGATIVE_STRING\<close> of the missing
  Constants.h: 39 digits (the comments "For exactly 39 digits" and "39 digits + sign" in
  Int128.cpp), the digits of \<open>2^127 - 1\<close> and those of \<open>2^127\<close> (the comments of
  \<^verbatim>\<open>numeric_limits<Int128>::max\<close> and \<^verbatim>\<open>min\<close> in Int128.inl).\<close>

definition INT128_MAX_DIGIT_COUNT :: nat where
  "INT128_MAX_DIGIT_COUNT = 39"

definition INT128_MAX_POSITIVE_STRING :: string where
  "INT128_MAX_POSITIVE_STRING = ''170141183460469231731687303715884105727''"

definition INT128_MAX_NEGATIVE_STRING :: string where
  "INT128_MAX_NEGATIVE_STRING = ''170141183460469231731687303715884105728''"

text \<open>\<^verbatim>\<open>std::string_view::operator>\<close>: the order of the first differing character, read as
  an unsigned byte; a proper prefix is smaller.\<close>

fun string_view_greater :: "string \<Rightarrow> string \<Rightarrow> bool" where
  "string_view_greater [] ys = False"
| "string_view_greater (x # xs) [] = True"
| "string_view_greater (x # xs) (y # ys) =
     (if (of_char x :: nat) = of_char y then string_view_greater xs ys
      else (of_char y :: nat) < of_char x)"

text \<open>The digit loop of \<^verbatim>\<open>Int128::fromString\<close>.\<close>

fun accumulate_digits :: "char list \<Rightarrow> Int128 \<Rightarrow> Int128 option" where
  "accumulate_digits [] result = Some result"
| "accumulate_digits (c # cs) result =
     (if \<not> is_digit c then None
      else accumulate_digits cs (result * of_nat INT128_BASE + of_nat (digit_value c)))"

definition Int128_fromString :: "string \<Rightarrow> Int128 option" where
  "Int128_fromString str =
     (case str of
        [] \<Rightarrow> None
      | c0 # _ \<Rightarrow>
          let isNeg = (c0 = CHR ''-'');
              pos = (if c0 = CHR ''-'' \<or> c0 = CHR ''+'' then 1 else 0 :: nat)
          in if length str \<le> pos then None
             else
               let digitCount = length str - pos;
                   digits = drop pos str
               in if INT128_MAX_DIGIT_COUNT < digitCount then None
                  else if digitCount = INT128_MAX_DIGIT_COUNT \<and> \<not> isNeg
                          \<and> string_view_greater digits INT128_MAX_POSITIVE_STRING
                  then None
                  else if digitCount = INT128_MAX_DIGIT_COUNT \<and> isNeg
                          \<and> digits = INT128_MAX_NEGATIVE_STRING
                  then Some Int128_min
                  else if digitCount = INT128_MAX_DIGIT_COUNT \<and> isNeg
                          \<and> string_view_greater digits INT128_MAX_NEGATIVE_STRING
                  then None
                  else (case accumulate_digits digits 0 of
                          None \<Rightarrow> None
                        | Some result \<Rightarrow> Some (if isNeg then Int128_neg result else result)))"

lemma Int128_div_ten_decreases_abs:
  assumes "temp \<noteq> 0" and "Int128_div temp (of_nat INT128_BASE) = Inr q"
  shows "nat \<bar>sint q\<bar> < nat \<bar>sint temp\<bar>"
proof -
  have "sint temp \<noteq> 0" using assms(1) by (simp add: signed_eq_0_iff)
  then have "0 < \<bar>sint temp\<bar>" by simp
  then have "\<bar>sint temp\<bar> div 10 < \<bar>sint temp\<bar>" by (intro int_div_less_self) simp_all
  moreover have "\<bar>sint q\<bar> = \<bar>sint temp\<bar> div 10"
    using assms(2) Int128_div_ten_abs[of temp q] by (simp add: INT128_BASE_def DECIMAL_BASE_def)
  ultimately show ?thesis by simp
qed

text \<open>The digit loop of \<^verbatim>\<open>Int128::toString\<close>: each digit is put in front of the result.\<close>

function toString_loop :: "Int128 \<Rightarrow> string \<Rightarrow> error + string" where
  "toString_loop temp result =
     (if temp \<noteq> 0
      then (case Int128_div temp (of_nat INT128_BASE) of
              Inl e \<Rightarrow> Inl e
            | Inr quotient' \<Rightarrow>
                (case Int128_mod temp (of_nat INT128_BASE) of
                   Inl e \<Rightarrow> Inl e
                 | Inr remainder' \<Rightarrow>
                     toString_loop quotient' (digit_char (unat (toLow remainder')) # result)))
      else Inr result)"
  by pat_completeness auto
termination
proof (relation "measure (\<lambda>(t, r). nat \<bar>sint t\<bar>)")
  show "wf (measure (\<lambda>(t :: Int128, r :: string). nat \<bar>sint t\<bar>))" by simp
next
  fix temp quotient' remainder' :: Int128 and result :: string
  assume "temp \<noteq> 0" and "Int128_div temp (of_nat INT128_BASE) = Inr quotient'"
  then have "nat \<bar>sint quotient'\<bar> < nat \<bar>sint temp\<bar>" by (rule Int128_div_ten_decreases_abs)
  then show "((quotient', digit_char (unat (toLow remainder')) # result), (temp, result))
      \<in> measure (\<lambda>(t, r). nat \<bar>sint t\<bar>)" by simp
qed

declare toString_loop.simps [simp del]

definition Int128_toString :: "Int128 \<Rightarrow> error + string" where
  "Int128_toString this =
     (if this = 0 then Inr ''0''
      else if this = Int128_min then Inr (''-'' @ INT128_MAX_NEGATIVE_STRING)
      else bindE (toString_loop (Int128_abs this) [])
             (\<lambda>result. Inr (if Int128_less this 0 then CHR ''-'' # result else result)))"


subsection \<open>Integer square root\<close>

text \<open>Modelled from the spec: the masks \<^verbatim>\<open>constants::BIT_MASK_UPPER_32\<close>, \<^verbatim>\<open>_16\<close>,
  \<^verbatim>\<open>_8\<close>, \<^verbatim>\<open>_4\<close>, \<^verbatim>\<open>_2\<close> and \<^verbatim>\<open>BIT_MASK_MSB\<close> of the missing Constants.h: the upper
  32, 16, 8, 4, 2 bits and the top bit of a 64-bit word, as their names say and as the
  binary search for the highest set bit in \<^verbatim>\<open>Int128::isqrt\<close> needs them.\<close>

definition BIT_MASK_UPPER_32 :: "64 word" where
  "BIT_MASK_UPPER_32 = 0xFFFFFFFF00000000"

definition BIT_MASK_UPPER_16 :: "64 word" where
  "BIT_MASK_UPPER_16 = 0xFFFF000000000000"

definition BIT_MASK_UPPER_8 :: "64 word" where
  "BIT_MASK_UPPER_8 = 0xFF00000000000000"

definition BIT_MASK_UPPER_4 :: "64 word" where
  "BIT_MASK_UPPER_4 = 0xF000000000000000"

definition BIT_MASK_UPPER_2 :: "64 word" where
  "BIT_MASK_UPPER_2 = 0xC000000000000000"

definition BIT_MASK_MSB :: "64 word" where
  "BIT_MASK_MSB = 0x8000000000000000"

text \<open>One test of the binary search: if the bits under the mask are all zero, shift the
  word left by \<open>n\<close>, otherwise add \<open>n\<close> to the bit length.\<close>

definition bitLength_step :: "64 word \<Rightarrow> nat \<Rightarrow> 64 word \<times> nat \<Rightarrow> 64 word \<times> nat" where
  "bitLength_step msk n p =
     (case p of (w, bitLength) \<Rightarrow>
        if w AND msk = 0 then (push_bit n w, bitLength) else (w, bitLength + n))"

text \<open>The search, written out twice in the source (for the high and for the low word).\<close>

definition bitLength_search :: "64 word \<Rightarrow> nat \<Rightarrow> nat" where
  "bitLength_search w bitLength0 =
     (case bitLength_step BIT_MASK_UPPER_2 2
             (bitLength_step BIT_MASK_UPPER_4 4
               (bitLength_step BIT_MASK_UPPER_8 8
                 (bitLength_step BIT_MASK_UPPER_16 16
                   (bitLength_step BIT_MASK_UPPER_32 32 (w, bitLength0))))) of
        (w', bitLength) \<Rightarrow> if w' AND BIT_MASK_MSB = 0 then bitLength else bitLength + 1)"

text \<open>The Heron loop of \<^verbatim>\<open>Int128::isqrt\<close>; \<open>n\<close> iterations are left. The bound of the
  loop, \<^verbatim>\<open>constants::INT128_ISQRT_MAX_ITERATIONS\<close> of the missing Constants.h, is a
  parameter of \<open>Int128_isqrt\<close>.\<close>

fun isqrt_loop :: "nat \<Rightarrow> Int128 \<Rightarrow> Int128 \<Rightarrow> Int128 \<Rightarrow> error + Int128" where
  "isqrt_loop 0 this div' div2 = Inr div'"
| "isqrt_loop (Suc n) this div' div2 =
     bindE (Int128_div this div') (\<lambda>q.
     bindE (Int128_div (div' + q) 2) (\<lambda>y.
       if y = div' \<or> y = div2
       then Inr (if Int128_less y div' then y else div')
       else isqrt_loop n this y div'))"

definition Int128_isqrt :: "nat \<Rightarrow> Int128 \<Rightarrow> error + Int128" where
  "Int128_isqrt INT128_ISQRT_MAX_ITERATIONS this =
     (if Int128_less this 0 then Inl domain_error
      else if this = 0 \<or> this = 1 then Inr this
      else
        let bitLength = (if toHigh this \<noteq> 0
                         then bitLength_search (toHigh this) BITS_PER_UINT64
                         else bitLength_search (toLow this) 0);
            initialShift = bitLength div 2;
            div' = (if BITS_PER_UINT64 \<le> initialShift
                    then Int128_of_words 0 (push_bit (initialShift - BITS_PER_UINT64) 1)
                    else Int128_of_words (push_bit initialShift 1) 0)
        in isqrt_loop INT128_ISQRT_MAX_ITERATIONS this div' div')"

section \<open>Rounding: negative places, and the tie rule\<close>

text \<open>
  Claim C9. For every Decimal, every rounding mode and every negative number of places,
  \<^verbatim>\<open>round\<close> returns what it returns for 0 places: the negative count is clamped to zero.
\<close>

theorem round_negative_places:
  "n < 0 \<Longrightarrow> Decimal_round d n m = Decimal_round d 0 m"
  by (simp add: Decimal_round_def)

theorem round_negative_places_witness:
  "(- 2 :: int) < 0 \<and>
   Decimal_round \<lparr>flags = 0x00030000, mantissa0 = 123456, mantissa1 = 0, mantissa2 = 0\<rparr>
       (- 2) ToNearest
     = Decimal_round \<lparr>flags = 0x00030000, mantissa0 = 123456, mantissa1 = 0, mantissa2 = 0\<rparr>
       0 ToNearest"
  using round_negative_places[of "- 2"
      "\<lparr>flags = 0x00030000, mantissa0 = 123456, mantissa1 = 0, mantissa2 = 0\<rparr>" ToNearest]
  by simp

text \<open>The three examples of the specification (2.5 to 2 and 3.5 to 4 under \<open>ToNearest\<close>, 2.5
  to 3 under \<open>ToNearestTiesAway\<close>) are what the code computes.\<close>

lemma round_tie_examples:
  "Decimal_fromString ''2.5'' = Some \<lparr>flags = 0x00010000, mantissa0 = 25, mantissa1 = 0, mantissa2 = 0\<rparr>"
  "Decimal_fromString ''3.5'' = Some \<lparr>flags = 0x00010000, mantissa0 = 35, mantissa1 = 0, mantissa2 = 0\<rparr>"
  "Decimal_round \<lparr>flags = 0x00010000, mantissa0 = 25, mantissa1 = 0, mantissa2 = 0\<rparr> 0 ToNearest
     = Inr \<lparr>flags = 0, mantissa0 = 2, mantissa1 = 0, mantissa2 = 0\<rparr>"
  "Decimal_round \<lparr>flags = 0x00010000, mantissa0 = 35, mantissa1 = 0, mantissa2 = 0\<rparr> 0 ToNearest
     = Inr \<lparr>flags = 0, mantissa0 = 4, mantissa1 = 0, mantissa2 = 0\<rparr>"
  "Decimal_round \<lparr>flags = 0x00010000, mantissa0 = 25, mantissa1 = 0, mantissa2 = 0\<rparr> 0 ToNearestTiesAway
     = Inr \<lparr>flags = 0, mantissa0 = 3, mantissa1 = 0, mantissa2 = 0\<rparr>"
  by code_simp+

text \<open>
  Claim C4. Under \<open>ToNearest\<close> a rounding digit of 5 followed by further non-zero digits
  must round away from zero. \<^verbatim>\<open>shouldRoundUpToNearest\<close> looks for those digits by comparing
  \<open>mantissa % divisor\<close> (the digits below the rounding digit) with
  \<open>roundingDigit * (divisor / 10)\<close>, not with zero; when the digits below are 5 followed by
  zeros the code takes the value for an exact tie. So \<^verbatim>\<open>Decimal("2.55").round(0, ToNearest)\<close>
  is 2 (the even neighbour) where the claim, and the comment "check if there are any
  non-zero digits after this one", say 3.
\<close>

theorem round_ToNearest_at_2_55:
  "Decimal_fromString ''2.55''
     = Some \<lparr>flags = 0x00020000, mantissa0 = 255, mantissa1 = 0, mantissa2 = 0\<rparr> \<and>
   Decimal_round \<lparr>flags = 0x00020000, mantissa0 = 255, mantissa1 = 0, mantissa2 = 0\<rparr> 0 ToNearest
     = Inr \<lparr>flags = 0, mantissa0 = 2, mantissa1 = 0, mantissa2 = 0\<rparr> \<and>
   Decimal_fromString ''2'' = Some \<lparr>flags = 0, mantissa0 = 2, mantissa1 = 0, mantissa2 = 0\<rparr>"
  by code_simp

section \<open>Addition past 96 bits\<close>

text \<open>
  Claim C2. No operation may wrap or truncate the mantissa past 96 bits without a sign of
  it. \<^verbatim>\<open>operator+\<close> stores the low 96 bits of the 128-bit sum and checks nothing: the
  largest Decimal, \<open>2^96 - 1\<close>, added to itself gives \<open>2^96 - 2\<close>, with no error.
  (\<^verbatim>\<open>operator*\<close> on the same operands wraps in 128 bits and gives 1.)
\<close>

theorem Decimal_add_wraps_at_max:
  "Decimal_of_Int128 79228162514264337593543950335
     = Inr \<lparr>flags = 0, mantissa0 = 0xFFFFFFFF, mantissa1 = 0xFFFFFFFF, mantissa2 = 0xFFFFFFFF\<rparr> \<and>
   Decimal_add \<lparr>flags = 0, mantissa0 = 0xFFFFFFFF, mantissa1 = 0xFFFFFFFF, mantissa2 = 0xFFFFFFFF\<rparr>
               \<lparr>flags = 0, mantissa0 = 0xFFFFFFFF, mantissa1 = 0xFFFFFFFF, mantissa2 = 0xFFFFFFFF\<rparr>
     = Inr \<lparr>flags = 0, mantissa0 = 0xFFFFFFFE, mantissa1 = 0xFFFFFFFF, mantissa2 = 0xFFFFFFFF\<rparr> \<and>
   Decimal_mul \<lparr>flags = 0, mantissa0 = 0xFFFFFFFF, mantissa1 = 0xFFFFFFFF, mantissa2 = 0xFFFFFFFF\<rparr>
               \<lparr>flags = 0, mantissa0 = 0xFFFFFFFF, mantissa1 = 0xFFFFFFFF, mantissa2 = 0xFFFFFFFF\<rparr>
     = Inr \<lparr>flags = 0, mantissa0 = 1, mantissa1 = 0, mantissa2 = 0\<rparr>"
  by code_simp

section \<open>The length guard of Int128::fromString\<close>

text \<open>The characters after the optional sign.\<close>

definition digit_run :: "string \<Rightarrow> string" where
  "digit_run str =
     (case str of
        [] \<Rightarrow> []
      | c0 # cs \<Rightarrow> if c0 = CHR ''-'' \<or> c0 = CHR ''+'' then cs else str)"

lemma accumulate_digits_Some_digits:
  "accumulate_digits cs r = Some v \<Longrightarrow> list_all is_digit cs"
  by (induction cs arbitrary: r) (auto split: if_splits)

lemma digits_of_INT128_MAX_NEGATIVE_STRING: "list_all is_digit INT128_MAX_NEGATIVE_STRING"
  by (simp add: INT128_MAX_NEGATIVE_STRING_def is_digit_def)

lemma Int128_fromString_too_long:
  assumes "INT128_MAX_DIGIT_COUNT < length (digit_run str)"
  shows "Int128_fromString str = None"
proof (cases str)
  case Nil
  then show ?thesis by (simp add: Int128_fromString_def)
next
  case (Cons c0 cs)
  show ?thesis
  proof (cases "c0 = CHR ''-'' \<or> c0 = CHR ''+''")
    case True
    then have "INT128_MAX_DIGIT_COUNT < length cs" using assms Cons by (simp add: digit_run_def)
    then show ?thesis using True Cons by (auto simp add: Int128_fromString_def Let_def)
  next
    case False
    then have "INT128_MAX_DIGIT_COUNT < Suc (length cs)" using assms Cons by (simp add: digit_run_def)
    then show ?thesis using False Cons by (auto simp add: Int128_fromString_def Let_def)
  qed
qed

lemma Int128_fromString_Some:
  assumes "Int128_fromString str = Some v"
  shows "digit_run str = INT128_MAX_NEGATIVE_STRING \<or>
         (\<exists>r. accumulate_digits (digit_run str) 0 = Some r)"
proof (cases str)
  case Nil
  then show ?thesis using assms by (simp add: Int128_fromString_def)
next
  case (Cons c0 cs)
  show ?thesis
  proof (cases "c0 = CHR ''-'' \<or> c0 = CHR ''+''")
    case True
    then have d: "digit_run str = cs" "drop 1 str = cs" using Cons by (simp_all add: digit_run_def)
    show ?thesis using assms True Cons unfolding d(1)
      by (auto simp add: Int128_fromString_def Let_def split: if_splits option.splits)
  next
    case False
    then have d: "digit_run str = c0 # cs" using Cons by (simp add: digit_run_def)
    show ?thesis using assms False Cons unfolding d
      by (auto simp add: Int128_fromString_def Let_def split: if_splits option.splits)
  qed
qed

text \<open>
  Claim C10. \<^verbatim>\<open>Int128::fromString\<close> fails on every input with more than 39 characters
  after the optional sign, leading zeros or not; every input it accepts has at most 39
  characters there, all of them digits.
\<close>

theorem Int128_fromString_length_guard:
  "(39 < length (digit_run str) \<longrightarrow> Int128_fromString str = None) \<and>
   (Int128_fromString str = Some v \<longrightarrow>
      length (digit_run str) \<le> 39 \<and> list_all is_digit (digit_run str))"
proof (intro conjI impI)
  assume "39 < length (digit_run str)"
  then have "INT128_MAX_DIGIT_COUNT < length (digit_run str)"
    by (simp add: INT128_MAX_DIGIT_COUNT_def)
  then show "Int128_fromString str = None" by (rule Int128_fromString_too_long)
next
  assume s: "Int128_fromString str = Some v"
  show "length (digit_run str) \<le> 39"
  proof (rule ccontr)
    assume "\<not> length (digit_run str) \<le> 39"
    then have "INT128_MAX_DIGIT_COUNT < length (digit_run str)"
      by (simp add: INT128_MAX_DIGIT_COUNT_def)
    then show False using s Int128_fromString_too_long by simp
  qed
next
  assume s: "Int128_fromString str = Some v"
  from Int128_fromString_Some[OF s] show "list_all is_digit (digit_run str)"
    using digits_of_INT128_MAX_NEGATIVE_STRING accumulate_digits_Some_digits by auto
qed

theorem Int128_fromString_length_guard_witness:
  "39 < length (digit_run (replicate 39 CHR ''0'' @ ''5'')) \<and>
   Int128_fromString (replicate 39 CHR ''0'' @ ''5'') = None \<and>
   Int128_fromString (replicate 38 CHR ''0'' @ ''5'') = Some 5 \<and>
   length (digit_run (replicate 38 CHR ''0'' @ ''5'')) \<le> 39"
proof -
  have a: "39 < length (digit_run (replicate 39 CHR ''0'' @ ''5''))"
    by (simp add: digit_run_def numeral_eq_Suc)
  have b: "Int128_fromString (replicate 38 CHR ''0'' @ ''5'') = Some 5"
    by code_simp
  from a b Int128_fromString_length_guard[of "replicate 39 CHR ''0'' @ ''5''"]
    Int128_fromString_length_guard[of "replicate 38 CHR ''0'' @ ''5''" 5]
  show ?thesis by blast
qed

section \<open>Operations that always return\<close>

text \<open>\<^verbatim>\<open>powerOf10\<close> is the power of ten in all three of its branches; the divisions by ten
  inside \<^verbatim>\<open>normalize\<close> and inside the loops of the operators never divide by zero.\<close>

lemma Int128_of_words_split: "Int128_of_words (ucast X) (ucast (drop_bit 64 X)) = (X :: Int128)"
  unfolding Int128_of_words_def BITS_PER_UINT64_def
  by (intro bit_word_eqI) (auto simp add: bit_simps)

lemma powerOf10_loop_eq: "powerOf10_loop n r = r * 10 ^ n"
  by (induction n arbitrary: r) (simp_all add: DECIMAL_BASE_def)

lemma ten_power_64_small:
  assumes "p < 20"
  shows "unat ((10 :: 64 word) ^ p) = 10 ^ p"
proof -
  have "(10::nat) ^ p \<le> 10 ^ 19" using assms by (intro power_increasing) simp_all
  also have "\<dots> < 2 ^ 64" by simp
  finally have "(10::nat) ^ p < 2 ^ 64" .
  moreover have "(10 :: 64 word) ^ p = of_nat (10 ^ p)" by simp
  ultimately show ?thesis by (simp only: unat_of_nat len_of_numeral_defs) simp
qed

lemma powerOf10_eq: "powerOf10 p = 10 ^ unat p"
proof -
  consider "unat p < 20" | "20 \<le> unat p" "unat p \<le> 28" | "28 < unat p" by linarith
  then show ?thesis
  proof cases
    case 1
    have u: "unat ((10 :: 64 word) ^ unat p) = 10 ^ unat p" using 1 by (rule ten_power_64_small)
    then have nz: "(10 :: 64 word) ^ unat p \<noteq> 0" by (metis power_not_zero unat_0 zero_neq_numeral)
    have "(ucast ((10 :: 64 word) ^ unat p) :: Int128) = of_nat (unat ((10 :: 64 word) ^ unat p))"
      by simp
    also have "\<dots> = 10 ^ unat p" unfolding u by simp
    finally show ?thesis using 1 nz
      by (simp add: powerOf10_def DECIMAL_POWER_TABLE_SIZE_def DECIMAL_POWERS_OF_10_def)
  next
    case 2
    then show ?thesis
      by (simp add: powerOf10_def DECIMAL_POWER_TABLE_SIZE_def DECIMAL_EXTENDED_POWER_MIN_def
          DECIMAL_EXTENDED_POWER_MAX_def DECIMAL_EXTENDED_POWERS_OF_10_def Int128_of_words_split)
  next
    case 3
    then show ?thesis
      by (simp add: powerOf10_def DECIMAL_POWER_TABLE_SIZE_def DECIMAL_EXTENDED_POWER_MIN_def
          DECIMAL_EXTENDED_POWER_MAX_def powerOf10_loop_eq)
  qed
qed

lemma Int128_div_Inr: "b \<noteq> 0 \<Longrightarrow> \<exists>q. Int128_div a b = Inr q"
  by (simp add: Int128_div_def)

lemma Int128_mod_Inr: "b \<noteq> 0 \<Longrightarrow> \<exists>q. Int128_mod a b = Inr q"
  by (simp add: Int128_mod_def)

lemma ten_neq_0: "(of_nat DECIMAL_BASE :: Int128) \<noteq> 0"
  by (simp add: DECIMAL_BASE_def)

lemma normalize_step_Inr: "\<exists>d'. normalize_step d = Inr d'"
  using Int128_div_Inr[of "powerOf10 1" "mantissaAsInt128 d"]
  by (auto simp add: normalize_step_def divideByPowerOf10_def bindE_def powerOf10_eq)

lemma normalize_Inr: "\<exists>d'. normalize d = Inr d'"
proof (induction d rule: normalize.induct)
  case (1 decimal)
  obtain r where r: "Int128_mod (mantissaAsInt128 decimal) (of_nat DECIMAL_BASE) = Inr r"
    using Int128_mod_Inr[OF ten_neq_0] by blast
  obtain d1 where d1: "normalize_step decimal = Inr d1"
    using normalize_step_Inr by blast
  show ?case
  proof (cases "0 < scale decimal \<and> r = 0")
    case True
    then have "\<exists>d'. normalize d1 = Inr d'" using "1.IH" r d1 by simp
    then show ?thesis using True r d1 by (subst normalize.simps) simp
  next
    case False
    then show ?thesis using r by (subst normalize.simps) auto
  qed
qed

lemma div_reduce_loop_Inr: "\<exists>r. div_reduce_loop q p = Inr r"
proof (induction q p rule: div_reduce_loop.induct)
  case (1 q p)
  obtain q1 where q1: "Int128_div q (of_nat DECIMAL_BASE) = Inr q1"
    using Int128_div_Inr[OF ten_neq_0] by blast
  show ?case
  proof (cases "0xFFFFFFFF < toHigh q \<and> 0 < p")
    case True
    then have "\<exists>r. div_reduce_loop q1 (p - 1) = Inr r" using "1.IH" q1 by simp
    then show ?thesis using True q1 by (subst div_reduce_loop.simps) simp
  next
    case False
    then show ?thesis by (subst div_reduce_loop.simps) auto
  qed
qed

lemma mantissaAsInt128_eq_0_iff: "mantissaAsInt128 d = 0 \<longleftrightarrow> mantissa_is_zero d"
  by (metis mantissa_is_zero_iff unat_mantissaAsInt128 unat_eq_0)

lemma mantissaAsInt128_zero: "mantissaAsInt128 Decimal_zero = 0"
  by (simp add: mantissaAsInt128_eq_0_iff mantissa_is_zero_def Decimal_zero_def)

lemma scale_zero: "scale Decimal_zero = 0"
  by (simp add: scale_def Decimal_zero_def)

lemma Decimal_eq_zero_iff: "Decimal_eq d Decimal_zero \<longleftrightarrow> mantissa_is_zero d"
proof (cases "mantissa_is_zero d")
  case True
  then show ?thesis by (simp add: Decimal_eq_def mantissa_is_zero_def Decimal_zero_def)
next
  case False
  then have m: "mantissaAsInt128 d \<noteq> 0" by (simp add: mantissaAsInt128_eq_0_iff)
  have "alignScale d Decimal_zero = (mantissaAsInt128 d, 0)"
    by (simp add: alignScale_def Let_def mantissaAsInt128_zero scale_zero)
  then show ?thesis using False m
    by (auto simp add: Decimal_eq_def Let_def mantissa_is_zero_def Decimal_zero_def)
qed

section \<open>Int128 on two 64-bit words\<close>

text \<open>
  Without \<^verbatim>\<open>NFX_DATATYPES_HAS_NATIVE_INT128\<close> the class holds the two halves
  \<^verbatim>\<open>lower64bits\<close> and \<^verbatim>\<open>upper64bits\<close>. Only what \<^verbatim>\<open>Int128::operator/\<close> of Int128.cpp
  uses is modelled here: equality (of both words), the order, addition, subtraction and
  negation of Int128.inl. The divisions of 64-bit words inside \<^verbatim>\<open>operator/\<close> are by
  \<^verbatim>\<open>other.m_layout.lower64bits\<close> in branches where the upper word of the divisor is zero
  and the divisor is not; \<open>divisor_low_nonzero\<close> below says that this word is not zero.
\<close>

record Int128_layout =
  lower64bits :: "64 word"
  upper64bits :: "64 word"

definition Int128L :: "64 word \<Rightarrow> 64 word \<Rightarrow> Int128_layout" where
  "Int128L low high = \<lparr>lower64bits = low, upper64bits = high\<rparr>"

definition Int128L_less :: "Int128_layout \<Rightarrow> Int128_layout \<Rightarrow> bool" where
  "Int128L_less this other =
     (let thisNeg = (sint (upper64bits this) < 0);
          otherNeg = (sint (upper64bits other) < 0)
      in if thisNeg \<and> \<not> otherNeg then True
         else if \<not> thisNeg \<and> otherNeg then False
         else if upper64bits this < upper64bits other then True
         else if upper64bits other < upper64bits this then False
         else lower64bits this < lower64bits other)"

definition Int128L_add :: "Int128_layout \<Rightarrow> Int128_layout \<Rightarrow> Int128_layout" where
  "Int128L_add this other =
     (let resultLow = lower64bits this + lower64bits other;
          carry = (if resultLow < lower64bits this then 1 else 0);
          resultHigh = upper64bits this + upper64bits other + carry
      in Int128L resultLow resultHigh)"

definition Int128L_sub :: "Int128_layout \<Rightarrow> Int128_layout \<Rightarrow> Int128_layout" where
  "Int128L_sub this other =
     (let resultLow = lower64bits this - lower64bits other;
          borrow = (if lower64bits this < lower64bits other then 1 else 0);
          resultHigh = upper64bits this - upper64bits other - borrow
      in Int128L resultLow resultHigh)"

definition Int128L_neg :: "Int128_layout \<Rightarrow> Int128_layout" where
  "Int128L_neg this =
     Int128L_add (Int128L (NOT (lower64bits this)) (NOT (upper64bits this))) (Int128L 1 0)"

text \<open>The loop over the two 32-bit chunks of the low word (\<^verbatim>\<open>shift\<close> = 32, then 0).
  \<open>None\<close> is \<^verbatim>\<open>canUseOptimizedPath = false\<close>.\<close>

fun div_chunk_loop ::
  "nat list \<Rightarrow> 64 word \<Rightarrow> 64 word \<Rightarrow> 64 word \<Rightarrow> 64 word \<Rightarrow> 64 word option" where
  "div_chunk_loop [] low divisor quotientAccumulator remainder' = Some quotientAccumulator"
| "div_chunk_loop (shift # shifts) low divisor quotientAccumulator remainder' =
     (let chunk = drop_bit shift low AND 0xFFFFFFFF
      in if 2 ^ 32 \<le> remainder' then None
         else let dividendPart = push_bit 32 remainder' OR chunk;
                  q = dividendPart div divisor;
                  r = dividendPart mod divisor
              in div_chunk_loop shifts low divisor (push_bit 32 quotientAccumulator OR q) r)"

text \<open>The binary long division: \<open>n\<close> bits are left, the bit at hand is \<open>n - 1\<close>.\<close>

fun long_division_loop ::
  "nat \<Rightarrow> Int128_layout \<Rightarrow> Int128_layout \<Rightarrow> Int128_layout \<Rightarrow> Int128_layout \<Rightarrow> Int128_layout" where
  "long_division_loop 0 absDividend absDivisor quotient' remainder' = quotient'"
| "long_division_loop (Suc i) absDividend absDivisor quotient' remainder' =
     (let remainder1 = Int128L_add remainder' remainder';
          remainder2 =
            (if (64 \<le> i \<and> bit (upper64bits absDividend) (i - 64))
                \<or> (i < 64 \<and> bit (lower64bits absDividend) i)
             then Int128L_add remainder1 (Int128L 1 0) else remainder1)
      in if \<not> Int128L_less remainder2 absDivisor
         then long_division_loop i absDividend absDivisor
                (if 64 \<le> i
                 then quotient'\<lparr>upper64bits := upper64bits quotient' OR push_bit (i - 64) 1\<rparr>
                 else quotient'\<lparr>lower64bits := lower64bits quotient' OR push_bit i 1\<rparr>)
                (Int128L_sub remainder2 absDivisor)
         else long_division_loop i absDividend absDivisor quotient' remainder2)"

definition Int128L_general_div :: "Int128_layout \<Rightarrow> Int128_layout \<Rightarrow> Int128_layout" where
  "Int128L_general_div this other =
     (let neg1 = Int128L_less this (Int128L 0 0);
          absDividend = (if neg1 then Int128L_neg this else this);
          neg2 = Int128L_less other (Int128L 0 0);
          absDivisor = (if neg2 then Int128L_neg other else other);
          resultNegative = (neg1 \<noteq> neg2)
      in if Int128L_less absDividend absDivisor then Int128L 0 0
         else if absDividend = absDivisor
         then (if resultNegative then Int128L_sub (Int128L 0 0) (Int128L 1 0) else Int128L 1 0)
         else let q = long_division_loop 128 absDividend absDivisor (Int128L 0 0) (Int128L 0 0)
              in if resultNegative then Int128L_sub (Int128L 0 0) q else q)"

text \<open>\<^verbatim>\<open>Int128::operator/\<close> of Int128.cpp.\<close>

definition Int128L_div :: "Int128_layout \<Rightarrow> Int128_layout \<Rightarrow> error + Int128_layout" where
  "Int128L_div this other =
     (if other = Int128L 0 0 then Inl overflow_error
      else if upper64bits this = 0 \<and> upper64bits other = 0
      then Inr (Int128L (lower64bits this div lower64bits other) 0)
      else if upper64bits other = 0
      then (let divisor = lower64bits other;
                highQuotient = upper64bits this div divisor;
                highRemainder = upper64bits this mod divisor
            in if highRemainder = 0
               then Inr (Int128L (lower64bits this div divisor) highQuotient)
               else if highRemainder < 2 ^ 32
               then (case div_chunk_loop [32, 0] (lower64bits this) divisor 0 highRemainder of
                       Some quotientAccumulator \<Rightarrow> Inr (Int128L quotientAccumulator highQuotient)
                     | None \<Rightarrow> Inr (Int128L_general_div this other))
               else Inr (Int128L_general_div this other))
      else Inr (Int128L_general_div this other))"

lemma divisor_low_nonzero:
  "other \<noteq> Int128L 0 0 \<Longrightarrow> upper64bits other = 0 \<Longrightarrow> lower64bits other \<noteq> 0"
  by (cases other) (auto simp add: Int128L_def)


section \<open>Division by zero\<close>

lemma Decimal_div_by_zero:
  "mantissa_is_zero other \<Longrightarrow> Decimal_div extra threshold this other = Inl overflow_error"
  by (simp add: Decimal_div_def Decimal_eq_zero_iff)

lemma bindE_Inr_ex:
  assumes "\<exists>v. m = Inr v" and "\<And>v. \<exists>r. f v = Inr r"
  shows "\<exists>r. bindE m f = Inr r"
  using assms by (auto simp add: bindE_def)

lemma Decimal_div_returns:
  assumes "\<not> mantissa_is_zero other"
  shows "\<exists>r. Decimal_div extra threshold this other = Inr r"
proof (cases "mantissa_is_zero this")
  case True
  then show ?thesis using assms by (simp add: Decimal_div_def Decimal_eq_zero_iff)
next
  case False
  have nz: "mantissaAsInt128 other \<noteq> 0" using assms by (simp add: mantissaAsInt128_eq_0_iff)
  show ?thesis
    using assms False
    apply (simp add: Decimal_div_def Decimal_eq_zero_iff case_prod_beta)
    apply (intro bindE_Inr_ex Int128_div_Inr nz div_reduce_loop_Inr)
    apply (simp add: case_prod_beta normalize_Inr)
    done
qed

text \<open>
  Claim C3. Dividing any Decimal by a Decimal whose mantissa is zero fails with an overflow
  error, and so does dividing any Int128 by zero, on the native word and on the two-word
  layout alike; for every other divisor the division returns a value.
\<close>

theorem division_by_zero:
  "(mantissa_is_zero other \<longrightarrow> Decimal_div extra threshold this other = Inl overflow_error) \<and>
   (\<not> mantissa_is_zero other \<longrightarrow> (\<exists>r. Decimal_div extra threshold this other = Inr r)) \<and>
   Int128_div a 0 = Inl overflow_error \<and>
   (b \<noteq> 0 \<longrightarrow> (\<exists>q. Int128_div a b = Inr q)) \<and>
   Int128L_div x (Int128L 0 0) = Inl overflow_error \<and>
   (y \<noteq> Int128L 0 0 \<longrightarrow> (\<exists>q. Int128L_div x y = Inr q))"
proof -
  have "\<exists>q. Int128L_div x y = Inr q" if "y \<noteq> Int128L 0 0"
    using that by (auto simp add: Int128L_div_def Let_def split: option.splits)
  then show ?thesis
    using Decimal_div_by_zero Decimal_div_returns Int128_div_Inr
    by (auto simp add: Int128_div_def Int128L_div_def)
qed

theorem division_by_zero_witness:
  "mantissa_is_zero \<lparr>flags = 0, mantissa0 = 0, mantissa1 = 0, mantissa2 = 0\<rparr> \<and>
   Decimal_div 6 0x0CCCCCCCCCCCCCCC \<lparr>flags = 0, mantissa0 = 5, mantissa1 = 0, mantissa2 = 0\<rparr>
       \<lparr>flags = 0, mantissa0 = 0, mantissa1 = 0, mantissa2 = 0\<rparr> = Inl overflow_error \<and>
   \<not> mantissa_is_zero \<lparr>flags = 0, mantissa0 = 2, mantissa1 = 0, mantissa2 = 0\<rparr> \<and>
   (\<exists>r. Decimal_div 6 0x0CCCCCCCCCCCCCCC \<lparr>flags = 0, mantissa0 = 5, mantissa1 = 0, mantissa2 = 0\<rparr>
       \<lparr>flags = 0, mantissa0 = 2, mantissa1 = 0, mantissa2 = 0\<rparr> = Inr r) \<and>
   Int128_div 5 0 = Inl overflow_error \<and>
   (\<exists>q. Int128_div 5 2 = Inr q) \<and>
   Int128L_div (Int128L 5 0) (Int128L 0 0) = Inl overflow_error \<and>
   (\<exists>q. Int128L_div (Int128L 5 0) (Int128L 2 0) = Inr q)"
proof -
  have 1: "mantissa_is_zero \<lparr>flags = 0, mantissa0 = 0, mantissa1 = 0, mantissa2 = 0\<rparr>"
    and 2: "\<not> mantissa_is_zero \<lparr>flags = 0, mantissa0 = 2, mantissa1 = 0, mantissa2 = 0\<rparr>"
    and 3: "(2 :: Int128) \<noteq> 0" and 4: "Int128L 2 0 \<noteq> Int128L 0 0"
    by (simp_all add: mantissa_is_zero_def Int128L_def)
  from 1 2 3 4
    division_by_zero[of "\<lparr>flags = 0, mantissa0 = 0, mantissa1 = 0, mantissa2 = 0\<rparr>" 6 "0x0CCCCCCCCCCCCCCC"
      "\<lparr>flags = 0, mantissa0 = 5, mantissa1 = 0, mantissa2 = 0\<rparr>" 5 2 "Int128L 5 0" "Int128L 2 0"]
    division_by_zero[of "\<lparr>flags = 0, mantissa0 = 2, mantissa1 = 0, mantissa2 = 0\<rparr>" 6 "0x0CCCCCCCCCCCCCCC"
      "\<lparr>flags = 0, mantissa0 = 5, mantissa1 = 0, mantissa2 = 0\<rparr>" 5 2 "Int128L 5 0" "Int128L 2 0"]
  show ?thesis by blast
qed


section \<open>Normal form\<close>


lemma Int128_mod_ten_mantissa:
  "\<exists>r. Int128_mod (mantissaAsInt128 d) (of_nat DECIMAL_BASE) = Inr r \<and>
       (r = 0 \<longleftrightarrow> mantissa_nat d mod 10 = 0)"
proof -
  have "0 \<le> sint (mantissaAsInt128 d)" by (simp add: sint_mantissaAsInt128)
  moreover have "0 < sint (of_nat DECIMAL_BASE :: Int128)" by (simp add: sint_ten)
  ultimately obtain r where r: "Int128_mod (mantissaAsInt128 d) (of_nat DECIMAL_BASE) = Inr r"
    "sint r = sint (mantissaAsInt128 d) mod sint (of_nat DECIMAL_BASE :: Int128)"
    using Int128_mod_nonneg by blast
  have s: "sint r = int (mantissa_nat d mod 10)"
    unfolding r(2) sint_mantissaAsInt128 sint_ten by (simp add: zmod_int)
  have "r = 0 \<longleftrightarrow> sint r = 0" by (simp add: signed_eq_0_iff)
  also have "\<dots> \<longleftrightarrow> mantissa_nat d mod 10 = 0" unfolding s by (simp only: of_nat_eq_0_iff)
  finally have "r = 0 \<longleftrightarrow> mantissa_nat d mod 10 = 0" .
  with r(1) show ?thesis by (intro exI[of _ r] conjI)
qed

lemma Int128_mod_ten_zero_iff:
  assumes "Int128_mod (mantissaAsInt128 d) (of_nat DECIMAL_BASE) = Inr r"
  shows "r = 0 \<longleftrightarrow> mantissa_nat d mod 10 = 0"
  using Int128_mod_ten_mantissa[of d] assms by simp

lemma unat_div_ten_mantissa:
  assumes "Int128_div (mantissaAsInt128 d) (powerOf10 1) = Inr q"
  shows "unat q = mantissa_nat d div 10"
proof -
  have p: "powerOf10 1 = of_nat DECIMAL_BASE" by (simp add: powerOf10_eq DECIMAL_BASE_def)
  have "0 \<le> sint (mantissaAsInt128 d)" by (simp add: sint_mantissaAsInt128)
  moreover have "0 < sint (of_nat DECIMAL_BASE :: Int128)" by (simp add: sint_ten)
  ultimately have "sint q = sint (mantissaAsInt128 d) div sint (of_nat DECIMAL_BASE :: Int128)"
    using Int128_div_nonneg[of "mantissaAsInt128 d" "of_nat DECIMAL_BASE"] assms p by auto
  then have s: "sint q = int (mantissa_nat d div 10)"
    unfolding sint_mantissaAsInt128 sint_ten by (simp add: zdiv_int)
  then have "0 \<le> sint q" by simp
  then have "unat q = nat (sint q)" by (rule unat_eq_sint)
  then show ?thesis using s by simp
qed

lemma normalize_step_mantissa:
  assumes "normalize_step d = Inr d'"
  shows "mantissa_nat d' = mantissa_nat d div 10"
proof -
  from assms obtain q where q: "Int128_div (mantissaAsInt128 d) (powerOf10 1) = Inr q"
    and d': "d' = (setMantissa d q)\<lparr>flags := (flags (setMantissa d q) AND NOT DECIMAL_SCALE_MASK)
         OR push_bit DECIMAL_SCALE_SHIFT (ucast (scale (setMantissa d q)) - 1)\<rparr>"
    by (auto simp add: normalize_step_def divideByPowerOf10_def bindE_def split: sum.splits)
  have "mantissa_nat d' = mantissa_nat (setMantissa d q)"
    unfolding d' by (simp add: mantissa_nat_def)
  also have "\<dots> = unat q mod 2 ^ 96" by (rule mantissa_nat_setMantissa)
  also have "unat q = mantissa_nat d div 10" using q by (rule unat_div_ten_mantissa)
  also have "mantissa_nat d div 10 mod 2 ^ 96 = mantissa_nat d div 10"
    using mantissa_nat_less[of d] by (intro mod_less) (simp add: div_less_dividend less_imp_diff_less)
  finally show ?thesis .
qed

lemma bit_DECIMAL_SIGN_MASK: "bit DECIMAL_SIGN_MASK n \<longleftrightarrow> n = 31"
proof -
  have e: "DECIMAL_SIGN_MASK = 2 ^ 31" by (simp add: DECIMAL_SIGN_MASK_def)
  show ?thesis unfolding e by (simp only: bit_exp_iff) (auto simp add: possible_bit_word)
qed

lemma sign_set_scale:
  "((f AND NOT DECIMAL_SCALE_MASK) OR push_bit DECIMAL_SCALE_SHIFT (ucast (s::8 word))) AND DECIMAL_SIGN_MASK
     = f AND DECIMAL_SIGN_MASK"
  unfolding DECIMAL_SCALE_MASK_eq DECIMAL_SCALE_SHIFT_def
  by (intro bit_word_eqI) (auto simp add: bit_simps bit_DECIMAL_SIGN_MASK dest: bit_imp_le_length)

lemma normalize_step_sign:
  assumes "normalize_step d = Inr d'" and "0 < scale d"
  shows "isNegative d' = isNegative d"
proof -
  from assms obtain q where
    d': "d' = (setMantissa d q)\<lparr>flags := (flags (setMantissa d q) AND NOT DECIMAL_SCALE_MASK)
         OR push_bit DECIMAL_SCALE_SHIFT (ucast (scale (setMantissa d q)) - 1)\<rparr>"
    by (auto simp add: normalize_step_def divideByPowerOf10_def bindE_def split: sum.splits)
  show ?thesis
    unfolding d' isNegative_def
    by (simp add: scale_setMantissa flags_setMantissa ucast_pred_8_32[OF assms(2)] sign_set_scale)
qed


lemma normalize_value:
  "normalize d = Inr d' \<Longrightarrow>
     unat (scale d') \<le> unat (scale d) \<and>
     mantissa_nat d' * 10 ^ (unat (scale d) - unat (scale d')) = mantissa_nat d \<and>
     isNegative d' = isNegative d"
proof (induction d rule: normalize.induct)
  case (1 decimal)
  obtain r where r1: "Int128_mod (mantissaAsInt128 decimal) (of_nat DECIMAL_BASE) = Inr r"
    using Int128_mod_Inr[OF ten_neq_0] by blast
  note r = r1 Int128_mod_ten_zero_iff[OF r1]
  obtain d1 where d1: "normalize_step decimal = Inr d1"
    using normalize_step_Inr by blast
  show ?case
  proof (cases "0 < scale decimal \<and> r = 0")
    case True
    then have n: "normalize d1 = Inr d'" using "1.prems" r(1) d1 by (subst (asm) normalize.simps) simp
    have ih: "unat (scale d') \<le> unat (scale d1)"
      "mantissa_nat d' * 10 ^ (unat (scale d1) - unat (scale d')) = mantissa_nat d1"
      "isNegative d' = isNegative d1"
      using "1.IH" True r(1) d1 n by simp_all
    have pos: "0 < scale decimal" using True by simp
    have sc: "scale d1 = scale decimal - 1" using d1 pos by (rule scale_normalize_step)
    have "scale decimal \<noteq> 0" using pos by auto
    then have u: "unat (scale d1) = unat (scale decimal) - 1" "0 < unat (scale decimal)"
      unfolding sc by (simp_all add: unat_minus_one unat_gt_0)
    have m: "mantissa_nat d1 = mantissa_nat decimal div 10" using d1 by (rule normalize_step_mantissa)
    have dv: "mantissa_nat decimal mod 10 = 0" using True r(2) by simp
    have e: "unat (scale decimal) - unat (scale d') = Suc (unat (scale d1) - unat (scale d'))"
      using ih(1) u by linarith
    have "mantissa_nat d' * 10 ^ (unat (scale decimal) - unat (scale d'))
        = (mantissa_nat d' * 10 ^ (unat (scale d1) - unat (scale d'))) * 10"
      unfolding e by simp
    also have "\<dots> = mantissa_nat decimal" unfolding ih(2) m using dv by auto
    finally show ?thesis using ih(1,3) u normalize_step_sign[OF d1 pos] by simp
  next
    case False
    then have "d' = decimal" using "1.prems" r(1) by (subst (asm) normalize.simps) (auto split: if_splits)
    then show ?thesis by simp
  qed
qed














section \<open>Construction from built-in numbers\<close>

subsection \<open>Integers\<close>


definition Decimal_of_int64 :: "64 word \<Rightarrow> Decimal" where
  "Decimal_of_int64 val =
     (if sint val < 0
      then \<lparr>flags = 0 OR DECIMAL_SIGN_MASK, mantissa0 = ucast (- val),
             mantissa1 = ucast (signed_drop_bit BITS_PER_UINT32 (- val)), mantissa2 = 0\<rparr>
      else \<lparr>flags = 0, mantissa0 = ucast val,
             mantissa1 = ucast (signed_drop_bit BITS_PER_UINT32 val), mantissa2 = 0\<rparr>)"



subsection \<open>Floating point\<close>

text \<open>One round of the second loop of \<^verbatim>\<open>internal::multiplyMantissaBy10AndAdd\<close>: add the carry
  to a limb; the loop stops as soon as the carry is 0.\<close>

definition add_carry :: "32 word \<Rightarrow> 64 word \<Rightarrow> 32 word \<times> 64 word" where
  "add_carry limb carry =
     (if 0 < carry
      then (let temp = ucast limb + carry in (ucast temp, drop_bit BITS_PER_UINT32 temp))
      else (limb, carry))"

text \<open>\<^verbatim>\<open>internal::multiplyMantissaBy10AndAdd\<close> on the three limbs of a Decimal: times ten with
  the carry passed upwards and dropped after the third limb, then the digit added.\<close>

definition multiplyMantissaBy10AndAdd :: "Decimal \<Rightarrow> 32 word \<Rightarrow> Decimal" where
  "multiplyMantissaBy10AndAdd d digit =
     (let temp0 = (ucast (mantissa0 d) :: 64 word) * of_nat DECIMAL_BASE + 0;
          temp1 = (ucast (mantissa1 d) :: 64 word) * of_nat DECIMAL_BASE
                    + drop_bit BITS_PER_UINT32 temp0;
          temp2 = (ucast (mantissa2 d) :: 64 word) * of_nat DECIMAL_BASE
                    + drop_bit BITS_PER_UINT32 temp1
      in case add_carry (ucast temp0) (ucast digit) of
           (m0, carry0) \<Rightarrow>
             case add_carry (ucast temp1) carry0 of
               (m1, carry1) \<Rightarrow>
                 case add_carry (ucast temp2) carry1 of
                   (m2, carry2) \<Rightarrow> d\<lparr>mantissa0 := m0, mantissa1 := m1, mantissa2 := m2\<rparr>)"

text \<open>The loop over the characters that \<^verbatim>\<open>std::to_chars\<close> wrote, after the sign. The pointer
  \<^verbatim>\<open>decimalPoint\<close> is kept as the distance \<^verbatim>\<open>end - decimalPoint - 1\<close>, which is all the
  code reads from it; \<open>None\<close> is \<^verbatim>\<open>nullptr\<close>.\<close>

fun chars_loop :: "char list \<Rightarrow> Decimal \<Rightarrow> nat option \<Rightarrow> Decimal \<times> nat option" where
  "chars_loop [] d decimalPoint = (d, decimalPoint)"
| "chars_loop (c # cs) d decimalPoint =
     (if c = CHR ''.'' then chars_loop cs d (Some (length cs))
      else if is_digit c
      then chars_loop cs (multiplyMantissaBy10AndAdd d (of_nat (digit_value c))) decimalPoint
      else chars_loop cs d decimalPoint)"

text \<open>The sign test at the head of the buffer and the digits after it.\<close>

definition chars_sign :: "char list \<Rightarrow> bool \<times> char list" where
  "chars_sign buffer =
     (case buffer of
        [] \<Rightarrow> (False, [])
      | c # cs \<Rightarrow> if c = CHR ''-'' then (True, cs)
                  else if c = CHR ''+'' then (False, cs) else (False, c # cs))"

text \<open>\<^verbatim>\<open>Decimal(double)\<close>. The floating-point value enters through two things only: whether it
  is NaN, infinite or zero (\<open>special\<close>), and the characters \<^verbatim>\<open>std::to_chars\<close> wrote for it
  (\<open>None\<close> when it reported an error).\<close>

definition Decimal_of_double :: "bool \<Rightarrow> char list option \<Rightarrow> error + Decimal" where
  "Decimal_of_double special chars =
     (if special then Inr Decimal_zero
      else case chars of
        None \<Rightarrow> Inr Decimal_zero
      | Some buffer \<Rightarrow>
          (case chars_sign buffer of
             (negative, digits) \<Rightarrow>
               (case chars_loop digits Decimal_zero None of
                  (d, decimalPoint) \<Rightarrow>
                    let scale' = (case decimalPoint of None \<Rightarrow> 0 | Some n \<Rightarrow> (of_nat n :: 8 word));
                        flags0 = (push_bit DECIMAL_SCALE_SHIFT (ucast scale') :: 32 word);
                        flags1 = (if negative then flags0 OR DECIMAL_SIGN_MASK else flags0)
                    in normalize (d\<lparr>flags := flags1\<rparr>))))"

text \<open>The loop of \<^verbatim>\<open>Decimal(float)\<close> that lowers the scale while \<^verbatim>\<open>buffer[end - p - 1]\<close> is
  the character 0. When it runs, \<^verbatim>\<open>p\<close> has reached the old \<^verbatim>\<open>end\<close>, so the index is -1 and
  goes down by one each round: the bytes read lie below the buffer, and they are the parameter
  \<open>below\<close> (\<open>below k\<close> is the byte at index \<open>-1 - k\<close>).\<close>

function float_scale_loop :: "(nat \<Rightarrow> char) \<Rightarrow> nat \<Rightarrow> 8 word \<Rightarrow> 8 word" where
  "float_scale_loop below k scale' =
     (if 0 < scale' \<and> below k = CHR ''0''
      then float_scale_loop below (Suc k) (scale' - 1)
      else scale')"
  by pat_completeness auto

termination
proof (relation "measure (\<lambda>(below, k, s). unat s)")
  show "wf (measure (\<lambda>(below, k, s). unat s))" by simp
next
  fix below :: "nat \<Rightarrow> char" and k :: nat and scale' :: "8 word"
  assume "0 < scale' \<and> below k = CHR ''0''"
  then have "unat (scale' - 1) < unat scale'"
    by (simp add: unat_minus_one word_gt_0)
       (metis Suc_pred lessI unat_gt_0)
  then show "((below, Suc k, scale' - 1), (below, k, scale')) \<in> measure (\<lambda>(below, k, s). unat s)"
    by simp
qed

declare float_scale_loop.simps [simp del]

text \<open>\<^verbatim>\<open>Decimal(float)\<close>: as for double, with the loop above between the scale and the
  flags.\<close>

definition Decimal_of_float :: "bool \<Rightarrow> char list option \<Rightarrow> (nat \<Rightarrow> char) \<Rightarrow> error + Decimal" where
  "Decimal_of_float special chars below =
     (if special then Inr Decimal_zero
      else case chars of
        None \<Rightarrow> Inr Decimal_zero
      | Some buffer \<Rightarrow>
          (case chars_sign buffer of
             (negative, digits) \<Rightarrow>
               (case chars_loop digits Decimal_zero None of
                  (d, decimalPoint) \<Rightarrow>
                    let scale' = (case decimalPoint of
                                    None \<Rightarrow> 0
                                  | Some n \<Rightarrow> float_scale_loop below 0 (of_nat n :: 8 word));
                        flags0 = (push_bit DECIMAL_SCALE_SHIFT (ucast scale') :: 32 word);
                        flags1 = (if negative then flags0 OR DECIMAL_SIGN_MASK else flags0)
                    in normalize (d\<lparr>flags := flags1\<rparr>))))"


section \<open>Normal form of results\<close>
















text \<open>The constructors from floating point and from a negative integer on examples; the
  bytes below the buffer are taken to be no digit 0.\<close>

lemma float_examples:
  "Decimal_of_double False (Some ''-12.5'')
     = Inr \<lparr>flags = 0x80010000, mantissa0 = 125, mantissa1 = 0, mantissa2 = 0\<rparr>"
  "Decimal_of_float False (Some ''-12.5000'') (\<lambda>k. CHR ''-'')
     = Inr \<lparr>flags = 0x80010000, mantissa0 = 125, mantissa1 = 0, mantissa2 = 0\<rparr>"
  "Decimal_of_int64 (- 8) = \<lparr>flags = 0x80000000, mantissa0 = 8, mantissa1 = 0, mantissa2 = 0\<rparr>"
  by code_simp+


end
